theory Spec2Isabelle
  imports Main "HOL-Library.Sublist" "HOL-Library.Code_Target_Numeral"
begin

section \<open>oom\_alloc.c: configuration and platform constants\<close>

text \<open>
  The two macros of the source, the two exit codes of \<open>stdlib.h\<close>, the failure value of
  \<open>mmap\<close> (\<open>(void *) -1\<close>; addresses are integers here) and the size of the \<open>int\<close>
  objects the initialisation loop writes (4 bytes on every Linux ABI; the program reads
  \<open>/proc/meminfo\<close> and is Linux only).
\<close>

definition ALLOC_MB :: nat where
  "ALLOC_MB = 64"

definition NUM_CHLD :: nat where
  "NUM_CHLD = 16"

definition EXIT_SUCCESS :: nat where
  "EXIT_SUCCESS = 0"

definition EXIT_FAILURE :: nat where
  "EXIT_FAILURE = 1"

definition MAP_FAILED :: int where
  "MAP_FAILED = - 1"

definition sizeof_int :: nat where
  "sizeof_int = 4"

text \<open>\<open>const size_t length = ALLOC_MB*(1024*1024)\<close> (line 69).\<close>

definition length_sz :: nat where
  "length_sz = ALLOC_MB * (1024 * 1024)"

section \<open>Library calls, the operating system and the process state\<close>

datatype prot = PROT_READ | PROT_WRITE

datatype mflag = MAP_ANONYMOUS | MAP_SHARED | MAP_PRIVATE

text \<open>
  Every library or system call the program makes is an event, with its arguments and,
  where the program looks at it, its result; \<open>Store p v\<close> is the assignment \<open>*p = v\<close>.
  \<open>Stdout s\<close> and \<open>Stderr s\<close> are calls of \<open>fprintf\<close> on the two streams, \<open>s\<close> the
  formatted text; \<open>Fopen path mode ok\<close> is \<open>fopen(path, mode)\<close>, \<open>ok\<close> false when it
  returns a null pointer; \<open>Mmap len prot flags addr\<close> is
  \<open>mmap(NULL, len, prot, flags, -1, 0)\<close> returning \<open>addr\<close>; \<open>Mprotect addr len prot r\<close>,
  \<open>Munmap addr len r\<close>, \<open>Fork r\<close> and \<open>Wait r\<close> are the calls returning \<open>r\<close>;
  \<open>Perror msg\<close> prints \<open>msg\<close> and the description of \<open>errno\<close> to the error stream. The
  events are the calls, in the order the process makes them; what stdio does with a
  stream's buffer below \<open>fprintf\<close> is not part of the model.
\<close>

datatype event =
    Stdout string
  | Stderr string
  | Perror string
  | Fopen string string bool
  | Fclose
  | Mmap nat "prot set" "mflag set" int
  | Store int int
  | Mprotect int nat "prot set" int
  | Fork int
  | Sleep nat
  | Wait int
  | Munmap int nat int
  | Exit nat

text \<open>
  What the operating system answers. \<open>meminfo os k\<close> is the answer to the \<open>k\<close>-th
  \<open>fopen("/proc/meminfo", "r")\<close> (\<open>None\<close>: the open fails; otherwise the bytes of the
  file at that moment); \<open>fork_ret os i\<close> and \<open>wait_ret os i\<close> are the values returned to
  iteration \<open>i\<close> of the two loops. A run of \<open>main\<close> under an \<open>os\<close> is the run of one
  process: the parent sees positive values of \<open>fork\<close>, a child sees \<open>0\<close> at the
  iteration that created it.
\<close>

record os =
  meminfo :: "nat \<Rightarrow> string option"
  mmap_ret :: int
  mprotect_ret :: int
  fork_ret :: "nat \<Rightarrow> int"
  wait_ret :: "nat \<Rightarrow> int"
  munmap_ret :: int

text \<open>
  The state of the process: the calls made so far (by the process, and before a \<open>fork\<close>
  by its parent), the \<open>int\<close> objects stored so far (by address), and the exit status
  once \<open>exit\<close> has been called.
\<close>

record world =
  trace :: "event list"
  mem :: "int \<Rightarrow> int option"
  status :: "nat option"

definition world0 :: world where
  "world0 = \<lparr>trace = [], mem = (\<lambda>a. None), status = None\<rparr>"

definition emit :: "event \<Rightarrow> world \<Rightarrow> world" where
  "emit e w = w\<lparr>trace := trace w @ [e]\<rparr>"

definition store :: "int \<Rightarrow> int \<Rightarrow> world \<Rightarrow> world" where
  "store p v w = (emit (Store p v) w)\<lparr>mem := (mem w)(p \<mapsto> v)\<rparr>"

definition exit :: "nat \<Rightarrow> world \<Rightarrow> world" where
  "exit c w = (emit (Exit c) w)\<lparr>status := Some c\<rparr>"

text \<open>The macro \<open>handle_error\<close> (lines 36-37): \<open>perror(msg); exit(EXIT_FAILURE)\<close>.\<close>

definition handle_error :: "string \<Rightarrow> world \<Rightarrow> world" where
  "handle_error msg w = exit EXIT_FAILURE (emit (Perror msg) w)"

text \<open>\<open>if (failed) handle_error(msg);\<close>\<close>

definition fail_if :: "bool \<Rightarrow> string \<Rightarrow> world \<Rightarrow> world" where
  "fail_if failed msg w = (if failed then handle_error msg w else w)"

text \<open>A sequence of statements: nothing runs once the process has exited.\<close>

fun run_stmts :: "(world \<Rightarrow> world) list \<Rightarrow> world \<Rightarrow> world" where
  "run_stmts [] w = w"
| "run_stmts (s # ss) w = (if status w = None then run_stmts ss (s w) else w)"

section \<open>C strings and stdio\<close>

text \<open>
  A buffer is the list of its bytes; the C string in it ends before the first NUL byte.
\<close>

definition c_str :: "string \<Rightarrow> string" where
  "c_str s = takeWhile (\<lambda>c. c \<noteq> CHR 0x00) s"

definition strlen :: "string \<Rightarrow> nat" where
  "strlen s = length (c_str s)"

text \<open>\<open>strncmp(a, b, n) == 0\<close>\<close>

definition strncmp_eq :: "string \<Rightarrow> string \<Rightarrow> nat \<Rightarrow> bool" where
  "strncmp_eq a b n = (take n (c_str a) = take n (c_str b))"

text \<open>
  The first call \<open>strtok(s, delim)\<close> on a buffer: skip the leading delimiters, return the
  bytes up to the next delimiter, or \<open>NULL\<close> (\<open>None\<close>) when nothing is left.
\<close>

definition strtok :: "string \<Rightarrow> string \<Rightarrow> string option" where
  "strtok s delim =
     (let t = dropWhile (\<lambda>c. c \<in> set delim) (c_str s)
      in if t = [] then None else Some (takeWhile (\<lambda>c. c \<notin> set delim) t))"

text \<open>What \<open>%s\<close> prints (glibc prints \<open>(null)\<close> for a null pointer).\<close>

definition fmt_s :: "string option \<Rightarrow> string" where
  "fmt_s a = (case a of None \<Rightarrow> ''(null)'' | Some s \<Rightarrow> s)"

text \<open>What \<open>%u\<close> prints: the decimal digits.\<close>

fun fmt_u :: "nat \<Rightarrow> string" where
  "fmt_u n = (if n < 10 then [char_of (48 + n)] else fmt_u (n div 10) @ [char_of (48 + n mod 10)])"

text \<open>
  \<open>fgets(buf, size, fp)\<close> on a stream with the bytes \<open>fp\<close> left: \<open>None\<close> at the end of the
  file, otherwise the bytes put into \<open>buf\<close> (at most \<open>size - 1\<close>, ending after the first
  newline) and the bytes left in the stream.
\<close>

fun fgets_read :: "nat \<Rightarrow> string \<Rightarrow> string \<times> string" where
  "fgets_read n [] = ([], [])"
| "fgets_read n (c # cs) =
     (if n = 0 then ([], c # cs)
      else if c = CHR 0x0A then ([c], cs)
      else (case fgets_read (n - 1) cs of (b, r) \<Rightarrow> (c # b, r)))"

definition fgets :: "nat \<Rightarrow> string \<Rightarrow> (string \<times> string) option" where
  "fgets sz fp = (if fp = [] then None else Some (fgets_read (sz - 1) fp))"

lemma fgets_read_length: "length (fst (fgets_read n s)) + length (snd (fgets_read n s)) = length s"
  by (induction n s rule: fgets_read.induct) (auto split: prod.splits)

lemma fgets_read_shorter: "s \<noteq> [] \<Longrightarrow> 0 < n \<Longrightarrow> length (snd (fgets_read n s)) < length s"
proof (cases s)
  case Nil
  assume "s \<noteq> []"
  with Nil show ?thesis by simp
next
  case (Cons c cs)
  assume "0 < n"
  have "length (snd (fgets_read (n - 1) cs)) \<le> length cs"
    using fgets_read_length [of "n - 1" cs] by linarith
  with Cons \<open>0 < n\<close> show ?thesis by (auto split: prod.splits)
qed

lemma fgets_shorter: "fgets 100 fp = Some (buf, fp') \<Longrightarrow> length fp' < length fp"
proof -
  assume a: "fgets 100 fp = Some (buf, fp')"
  then have ne: "fp \<noteq> []" by (auto simp: fgets_def split: if_splits)
  with a have "fgets_read 99 fp = (buf, fp')" by (simp add: fgets_def)
  then have "fp' = snd (fgets_read 99 fp)" by simp
  with fgets_read_shorter [OF ne, of 99] show ?thesis by simp
qed

section \<open>print\_mem\_commit (lines 42-57)\<close>

definition memstr :: string where
  "memstr = ''Committed_AS:''"

text \<open>
  The loop \<open>while (fgets(buf, sizeof(buf), fp)) if (strncmp(...) == 0) fprintf(...)\<close>,
  with \<open>sizeof(buf) = 100\<close>.
\<close>

function scan_loop :: "string \<Rightarrow> string \<Rightarrow> world \<Rightarrow> world" where
  "scan_loop msg fp w =
     (case fgets 100 fp of
        None \<Rightarrow> w
      | Some (buf, fp') \<Rightarrow>
          scan_loop msg fp'
            (if strncmp_eq buf memstr (strlen memstr)
             then emit (Stdout (fmt_s (strtok buf ''\<newline>'') @ ''    ('' @ msg @ '')\<newline>'')) w
             else w))"
  by pat_completeness auto
termination
  by (relation "measure (\<lambda>(msg, fp, w). length fp)") (auto dest: fgets_shorter)

text \<open>
  \<open>fp\<close> is the result of \<open>fopen("/proc/meminfo", "r")\<close>: \<open>None\<close> for a null pointer,
  otherwise the bytes of the file.
\<close>

definition print_mem_commit :: "string option \<Rightarrow> string \<Rightarrow> world \<Rightarrow> world" where
  "print_mem_commit fp msg w =
     (case fp of
        None \<Rightarrow> handle_error ''file open'' (emit (Fopen ''/proc/meminfo'' ''r'' False) w)
      | Some content \<Rightarrow>
          emit Fclose (scan_loop msg content (emit (Fopen ''/proc/meminfo'' ''r'' True) w)))"

section \<open>usage (lines 59-64) and main (lines 66-126)\<close>

definition usage :: "string list \<Rightarrow> world \<Rightarrow> world" where
  "usage argv w =
     exit EXIT_FAILURE (emit (Stderr (argv ! 0 @ '' [ --shared | --private ]\<newline>'')) w)"

text \<open>
  The loop of lines 98-99: \<open>p\<close> is the address written next, \<open>i\<close> the value. \<open>i\<close> stays
  below \<open>length / sizeof(*p) = 16777216\<close>, inside the range of \<open>int\<close>.
\<close>

function init_loop :: "int \<Rightarrow> nat \<Rightarrow> world \<Rightarrow> world" where
  "init_loop p i w =
     (if i < length_sz div sizeof_int
      then init_loop (p + int sizeof_int) (i + 1) (store p (int i) w)
      else w)"
  by pat_completeness auto
termination
  by (relation "measure (\<lambda>(p, i, w). length_sz div sizeof_int - i)") auto

text \<open>The loop of lines 106-113. A child (\<open>fork\<close> returned 0) sleeps and exits.\<close>

function fork_loop :: "os \<Rightarrow> nat \<Rightarrow> world \<Rightarrow> world" where
  "fork_loop os i w =
     (if i < NUM_CHLD
      then (let chld = fork_ret os i; w1 = emit (Fork chld) w
            in if chld = 0 then exit EXIT_SUCCESS (emit (Sleep 3) w1)
               else if chld = - 1 then handle_error ''fork'' w1
               else fork_loop os (i + 1) w1)
      else w)"
  by pat_completeness auto
termination
  by (relation "measure (\<lambda>(os, i, w). NUM_CHLD - i)") auto

text \<open>The loop of lines 116-119.\<close>

function wait_loop :: "os \<Rightarrow> nat \<Rightarrow> world \<Rightarrow> world" where
  "wait_loop os i w =
     (if i < NUM_CHLD
      then (let r = wait_ret os i; w1 = emit (Wait r) w
            in if r = - 1 then handle_error ''wait'' w1
               else wait_loop os (i + 1) w1)
      else w)"
  by pat_completeness auto
termination
  by (relation "measure (\<lambda>(os, i, w). NUM_CHLD - i)") auto

text \<open>
  Lines 86-125, once \<open>shared\<close> is set: the statements in the order of the source, a call
  and the test of its result being two statements.
\<close>

definition main_body :: "os \<Rightarrow> int \<Rightarrow> world \<Rightarrow> world" where
  "main_body os shared =
     (let addr = mmap_ret os in
      run_stmts
       [emit (Stdout ''Test dnsmasq OOM: memory allocation and forking\<newline>''),
        emit (Stdout (''(allocate '' @ fmt_u ALLOC_MB @ '' MB ''
                       @ (if shared \<noteq> 0 then ''shared'' else ''private'')
                       @ '' anonymous, fork '' @ fmt_u NUM_CHLD @ '' processes)\<newline>'')),
        print_mem_commit (meminfo os 0) ''initial state'',
        emit (Mmap length_sz {PROT_READ, PROT_WRITE}
               {MAP_ANONYMOUS, if shared \<noteq> 0 then MAP_SHARED else MAP_PRIVATE} addr),
        fail_if (addr = MAP_FAILED) ''mmap'',
        print_mem_commit (meminfo os 1) ''parent mem allocated'',
        init_loop addr 0,
        print_mem_commit (meminfo os 2) ''parent mem initialized'',
        emit (Mprotect addr length_sz {PROT_READ} (mprotect_ret os)),
        fail_if (mprotect_ret os = - 1) ''mprotect'',
        print_mem_commit (meminfo os 3) ''parent mem set-readonly'',
        fork_loop os 0,
        print_mem_commit (meminfo os 4) ''parent forked children'',
        wait_loop os 0,
        print_mem_commit (meminfo os 5) ''parent reaped children'',
        emit (Munmap addr length_sz (munmap_ret os)),
        print_mem_commit (meminfo os 6) ''parent mem unmapped'',
        exit EXIT_SUCCESS])"

text \<open>
  \<open>argv\<close> is the whole argument vector, \<open>argv ! 0\<close> the program name, \<open>argc\<close> its
  length (at least 1 when the program is started the usual way; the results below that
  look at \<open>argv ! 0\<close> assume it); \<open>strcmp(a, b) == 0\<close> is equality of the two strings.
\<close>

definition main :: "os \<Rightarrow> string list \<Rightarrow> world" where
  "main os argv =
     (let argc = length argv in
      if argc \<noteq> 2 then usage argv world0
      else if argv ! 1 = ''--shared'' then main_body os 1 world0
      else if argv ! 1 = ''--private'' then main_body os 0 world0
      else usage argv world0)"

section \<open>What a trace shows\<close>

text \<open>The texts written to the standard output, in order.\<close>

fun stdout_of :: "event list \<Rightarrow> string list" where
  "stdout_of [] = []"
| "stdout_of (Stdout s # es) = s # stdout_of es"
| "stdout_of (e # es) = stdout_of es"

text \<open>Kinds of calls.\<close>

fun is_mmap :: "event \<Rightarrow> bool" where
  "is_mmap (Mmap len pr fl addr) = True"
| "is_mmap e = False"

fun is_store :: "event \<Rightarrow> bool" where
  "is_store (Store p v) = True"
| "is_store e = False"

fun is_mprotect :: "event \<Rightarrow> bool" where
  "is_mprotect (Mprotect addr len pr r) = True"
| "is_mprotect e = False"


text \<open>The name a failed resource request is reported under.\<close>

fun acq_failure :: "event \<Rightarrow> string option" where
  "acq_failure (Fopen path mode ok) = (if ok then None else Some ''file open'')"
| "acq_failure (Mmap len pr fl addr) = (if addr = MAP_FAILED then Some ''mmap'' else None)"
| "acq_failure (Mprotect addr len pr r) = (if r = - 1 then Some ''mprotect'' else None)"
| "acq_failure (Fork r) = (if r = - 1 then Some ''fork'' else None)"
| "acq_failure (Wait r) = (if r = - 1 then Some ''wait'' else None)"
| "acq_failure e = None"

section \<open>The trace of a run\<close>

lemma trace_emit [simp]: "trace (emit e w) = trace w @ [e]"
  by (simp add: emit_def)

lemma status_emit [simp]: "status (emit e w) = status w"
  by (simp add: emit_def)

lemma mem_emit [simp]: "mem (emit e w) = mem w"
  by (simp add: emit_def)

lemma trace_store [simp]: "trace (store p v w) = trace w @ [Store p v]"
  by (simp add: store_def)

lemma status_store [simp]: "status (store p v w) = status w"
  by (simp add: store_def)

lemma mem_store [simp]: "mem (store p v w) = (mem w)(p \<mapsto> v)"
  by (simp add: store_def)

lemma trace_exit [simp]: "trace (exit c w) = trace w @ [Exit c]"
  by (simp add: exit_def)

lemma status_exit [simp]: "status (exit c w) = Some c"
  by (simp add: exit_def)

lemma mem_exit [simp]: "mem (exit c w) = mem w"
  by (simp add: exit_def)

lemma trace_handle_error [simp]:
  "trace (handle_error msg w) = trace w @ [Perror msg, Exit EXIT_FAILURE]"
  by (simp add: handle_error_def)

lemma status_handle_error [simp]: "status (handle_error msg w) = Some EXIT_FAILURE"
  by (simp add: handle_error_def)

lemma mem_handle_error [simp]: "mem (handle_error msg w) = mem w"
  by (simp add: handle_error_def)

text \<open>What a statement does to a running process: the events it appends and the exit status it leaves.\<close>

definition acts :: "(world \<Rightarrow> world) \<Rightarrow> event list \<times> nat option \<Rightarrow> bool" where
  "acts s b = (\<forall>w. trace (s w) = trace w @ fst b \<and> (status w = None \<longrightarrow> status (s w) = snd b))"

fun seq_trace :: "(event list \<times> nat option) list \<Rightarrow> event list" where
  "seq_trace [] = []"
| "seq_trace (b # r) = fst b @ (if snd b = None then seq_trace r else [])"

fun seq_status :: "(event list \<times> nat option) list \<Rightarrow> nat option" where
  "seq_status [] = None"
| "seq_status (b # r) = (if snd b = None then seq_status r else snd b)"

lemma run_stmts_acts:
  "list_all2 acts ss bs \<Longrightarrow> status w = None \<Longrightarrow>
   trace (run_stmts ss w) = trace w @ seq_trace bs \<and> status (run_stmts ss w) = seq_status bs"
proof (induction ss bs arbitrary: w rule: list_all2_induct)
  case Nil
  then show ?case by simp
next
  case (Cons s ss b bs)
  obtain es st where b: "b = (es, st)" by (cases b)
  from Cons.hyps(1) b Cons.prems have t: "trace (s w) = trace w @ es" and u: "status (s w) = st"
    by (auto simp: acts_def)
  show ?case
  proof (cases st)
    case None
    with u Cons.IH [of "s w"] t b Cons.prems show ?thesis by simp
  next
    case (Some c)
    have "run_stmts ss (s w) = s w" using u Some by (cases ss) auto
    with Some t u b Cons.prems show ?thesis by simp
  qed
qed

lemma acts_emit: "acts (emit e) ([e], None)"
  by (simp add: acts_def)

lemma acts_exit: "acts (exit c) ([Exit c], Some c)"
  by (simp add: acts_def)

lemma acts_fail_if:
  "acts (fail_if b msg) (if b then ([Perror msg, Exit EXIT_FAILURE], Some EXIT_FAILURE) else ([], None))"
  by (simp add: acts_def fail_if_def)

text \<open>The buffers the successive calls of \<open>fgets\<close> return.\<close>

function fgets_all :: "string \<Rightarrow> string list" where
  "fgets_all fp = (case fgets 100 fp of None \<Rightarrow> [] | Some (buf, fp') \<Rightarrow> buf # fgets_all fp')"
  by pat_completeness auto
termination
  by (relation "measure length") (auto dest: fgets_shorter)

definition matches :: "string \<Rightarrow> bool" where
  "matches buf = strncmp_eq buf memstr (strlen memstr)"

definition commit_line :: "string \<Rightarrow> string \<Rightarrow> string" where
  "commit_line msg buf = fmt_s (strtok buf ''\<newline>'') @ ''    ('' @ msg @ '')\<newline>''"

definition commit_out :: "string \<Rightarrow> string \<Rightarrow> event list" where
  "commit_out msg fp = map (\<lambda>buf. Stdout (commit_line msg buf)) (filter matches (fgets_all fp))"

declare scan_loop.simps [simp del] fgets_all.simps [simp del]

lemma commit_out_unfold:
  "commit_out msg fp =
     (case fgets 100 fp of
        None \<Rightarrow> []
      | Some (buf, fp') \<Rightarrow>
          (if matches buf then [Stdout (commit_line msg buf)] else []) @ commit_out msg fp')"
  by (simp add: commit_out_def fgets_all.simps [of fp] split: option.splits)

lemma scan_loop_eq:
  "scan_loop msg fp w = w\<lparr>trace := trace w @ commit_out msg fp\<rparr>"
proof (induction msg fp w rule: scan_loop.induct)
  case (1 msg fp w)
  show ?case
  proof (cases "fgets 100 fp")
    case None
    then show ?thesis
      by (simp add: scan_loop.simps [of msg fp w] commit_out_unfold [of msg fp])
  next
    case (Some a)
    obtain buf fp' where a: "a = (buf, fp')" by (cases a)
    let ?w = "if strncmp_eq buf memstr (strlen memstr)
             then emit (Stdout (fmt_s (strtok buf ''\<newline>'') @ ''    ('' @ msg @ '')\<newline>'')) w
             else w"
    have "scan_loop msg fp w = scan_loop msg fp' ?w"
      using Some a by (simp add: scan_loop.simps [of msg fp w])
    also have "\<dots> = ?w\<lparr>trace := trace ?w @ commit_out msg fp'\<rparr>"
      using "1.IH" [OF Some a [symmetric]] .
    also have "\<dots> = w\<lparr>trace := trace w @ commit_out msg fp\<rparr>"
      using Some a
      by (simp add: commit_out_unfold [of msg fp] matches_def commit_line_def emit_def)
    finally show ?thesis .
  qed
qed

lemma acts_print_mem_commit:
  "acts (print_mem_commit fp msg)
     (case fp of
        None \<Rightarrow> ([Fopen ''/proc/meminfo'' ''r'' False, Perror ''file open'', Exit EXIT_FAILURE],
                 Some EXIT_FAILURE)
      | Some content \<Rightarrow>
          (Fopen ''/proc/meminfo'' ''r'' True # commit_out msg content @ [Fclose], None))"
  by (cases fp) (simp_all add: acts_def print_mem_commit_def scan_loop_eq)

declare init_loop.simps [simp del] fork_loop.simps [simp del] wait_loop.simps [simp del]

definition nslots :: nat where
  "nslots = length_sz div sizeof_int"

lemma nslots_eq: "nslots = 16777216"
  by (simp add: nslots_def length_sz_def ALLOC_MB_def sizeof_int_def)

lemma init_loop_trace:
  "trace (init_loop p i w) =
     trace w @ map (\<lambda>k. Store (p + int sizeof_int * int (k - i)) (int k)) [i..<nslots]"
proof (induction p i w rule: init_loop.induct)
  case (1 p i w)
  show ?case
  proof (cases "i < nslots")
    case True
    then have "trace (init_loop p i w) = trace (init_loop (p + int sizeof_int) (i + 1) (store p (int i) w))"
      by (simp add: init_loop.simps [of p i w] nslots_def)
    also have "\<dots> = trace (store p (int i) w) @
         map (\<lambda>k. Store (p + int sizeof_int + int sizeof_int * int (k - (i + 1))) (int k)) [i + 1..<nslots]"
      using "1.IH" True by (simp add: nslots_def)
    also have "map (\<lambda>k. Store (p + int sizeof_int + int sizeof_int * int (k - (i + 1))) (int k)) [i + 1..<nslots]
         = map (\<lambda>k. Store (p + int sizeof_int * int (k - i)) (int k)) [i + 1..<nslots]"
    proof (rule map_cong [OF refl])
      fix k assume "k \<in> set [i + 1..<nslots]"
      then have "int (k - i) = int (k - (i + 1)) + 1" by auto
      then show "Store (p + int sizeof_int + int sizeof_int * int (k - (i + 1))) (int k)
               = Store (p + int sizeof_int * int (k - i)) (int k)"
        by (simp add: algebra_simps)
    qed
    finally show ?thesis using True by (simp add: upt_conv_Cons)
  next
    case False
    then show ?thesis by (simp add: init_loop.simps [of p i w] nslots_def)
  qed
qed

lemma init_loop_status: "status (init_loop p i w) = status w"
proof (induction p i w rule: init_loop.induct)
  case (1 p i w)
  then show ?case by (cases "i < length_sz div sizeof_int") (simp_all add: init_loop.simps [of p i w])
qed

lemma init_loop_mem_below: "a < p \<Longrightarrow> mem (init_loop p i w) a = mem w a"
proof (induction p i w rule: init_loop.induct)
  case (1 p i w)
  show ?case
  proof (cases "i < length_sz div sizeof_int")
    case True
    with "1.IH" "1.prems" show ?thesis
      by (simp add: init_loop.simps [of p i w])
  next
    case False
    then show ?thesis by (simp add: init_loop.simps [of p i w])
  qed
qed

lemma init_loop_mem:
  "i \<le> k \<Longrightarrow> k < nslots \<Longrightarrow>
   mem (init_loop p i w) (p + int sizeof_int * int (k - i)) = Some (int k)"
proof (induction p i w rule: init_loop.induct)
  case (1 p i w)
  from "1.prems" have lt: "i < length_sz div sizeof_int" by (simp add: nslots_def)
  show ?case
  proof (cases "k = i")
    case True
    have "mem (init_loop (p + int sizeof_int) (i + 1) (store p (int i) w)) p = mem (store p (int i) w) p"
      by (rule init_loop_mem_below) (simp add: sizeof_int_def)
    with True lt show ?thesis by (simp add: init_loop.simps [of p i w])
  next
    case False
    with "1.prems" have k: "i + 1 \<le> k" by simp
    then have e: "int (k - i) = int (k - (i + 1)) + 1" by auto
    from "1.IH" [OF lt k "1.prems"(2)] lt e show ?thesis
      by (simp add: init_loop.simps [of p i w] algebra_simps)
  qed
qed

lemma acts_init_loop:
  "acts (init_loop p i)
     (map (\<lambda>k. Store (p + int sizeof_int * int (k - i)) (int k)) [i..<nslots], None)"
  by (simp add: acts_def init_loop_trace init_loop_status)

text \<open>The two loops over the children, by the list of values \<open>fork\<close> and \<open>wait\<close> return.\<close>

definition fork_ok :: "int \<Rightarrow> bool" where
  "fork_ok r = (r \<noteq> 0 \<and> r \<noteq> - 1)"

definition fork_end :: "int list \<Rightarrow> event list \<times> nat option" where
  "fork_end rs =
     (case rs of
        [] \<Rightarrow> ([], None)
      | r # _ \<Rightarrow>
          if r = 0 then ([Fork r, Sleep 3, Exit EXIT_SUCCESS], Some EXIT_SUCCESS)
          else ([Fork r, Perror ''fork'', Exit EXIT_FAILURE], Some EXIT_FAILURE))"

definition fork_out :: "int list \<Rightarrow> event list \<times> nat option" where
  "fork_out rs =
     (map Fork (takeWhile fork_ok rs) @ fst (fork_end (dropWhile fork_ok rs)),
      snd (fork_end (dropWhile fork_ok rs)))"

lemma fork_out_Nil: "fork_out [] = ([], None)"
  by (simp add: fork_out_def fork_end_def)

lemma fork_out_Cons:
  "fork_out (r # rs) =
     (if r = 0 then ([Fork r, Sleep 3, Exit EXIT_SUCCESS], Some EXIT_SUCCESS)
      else if r = - 1 then ([Fork r, Perror ''fork'', Exit EXIT_FAILURE], Some EXIT_FAILURE)
      else (Fork r # fst (fork_out rs), snd (fork_out rs)))"
  by (simp add: fork_out_def fork_end_def fork_ok_def)

lemma fork_loop_eq:
  "trace (fork_loop os i w) = trace w @ fst (fork_out (map (fork_ret os) [i..<NUM_CHLD])) \<and>
   (status w = None \<longrightarrow> status (fork_loop os i w) = snd (fork_out (map (fork_ret os) [i..<NUM_CHLD])))"
proof (induction os i w rule: fork_loop.induct)
  case (1 os i w)
  show ?case
  proof (cases "i < NUM_CHLD")
    case False
    then show ?thesis by (simp add: fork_loop.simps [of os i w] fork_out_Nil)
  next
    case True
    then have u: "[i..<NUM_CHLD] = i # [i + 1..<NUM_CHLD]" by (simp add: upt_conv_Cons)
    show ?thesis
    proof (cases "fork_ret os i = 0 \<or> fork_ret os i = - 1")
      case True
      with \<open>i < NUM_CHLD\<close> show ?thesis
        by (auto simp: fork_loop.simps [of os i w] u fork_out_Cons Let_def)
    next
      case False
      with "1.IH" [OF \<open>i < NUM_CHLD\<close> refl refl] \<open>i < NUM_CHLD\<close> show ?thesis
        by (simp add: fork_loop.simps [of os i w] u fork_out_Cons Let_def)
    qed
  qed
qed

lemma acts_fork_loop: "acts (fork_loop os i) (fork_out (map (fork_ret os) [i..<NUM_CHLD]))"
  by (simp add: acts_def fork_loop_eq)

definition wait_out :: "int list \<Rightarrow> event list \<times> nat option" where
  "wait_out rs =
     (map Wait (takeWhile (\<lambda>r. r \<noteq> - 1) rs)
        @ (if dropWhile (\<lambda>r. r \<noteq> - 1) rs = [] then []
           else [Wait (- 1), Perror ''wait'', Exit EXIT_FAILURE]),
      if dropWhile (\<lambda>r. r \<noteq> - 1) rs = [] then None else Some EXIT_FAILURE)"

lemma wait_out_Nil: "wait_out [] = ([], None)"
  by (simp add: wait_out_def)

lemma wait_out_Cons:
  "wait_out (r # rs) =
     (if r = - 1 then ([Wait r, Perror ''wait'', Exit EXIT_FAILURE], Some EXIT_FAILURE)
      else (Wait r # fst (wait_out rs), snd (wait_out rs)))"
  by (simp add: wait_out_def)

lemma wait_loop_eq:
  "trace (wait_loop os i w) = trace w @ fst (wait_out (map (wait_ret os) [i..<NUM_CHLD])) \<and>
   (status w = None \<longrightarrow> status (wait_loop os i w) = snd (wait_out (map (wait_ret os) [i..<NUM_CHLD])))"
proof (induction os i w rule: wait_loop.induct)
  case (1 os i w)
  show ?case
  proof (cases "i < NUM_CHLD")
    case False
    then show ?thesis by (simp add: wait_loop.simps [of os i w] wait_out_Nil)
  next
    case True
    then have u: "[i..<NUM_CHLD] = i # [i + 1..<NUM_CHLD]" by (simp add: upt_conv_Cons)
    show ?thesis
    proof (cases "wait_ret os i = - 1")
      case True
      with \<open>i < NUM_CHLD\<close> show ?thesis
        by (simp add: wait_loop.simps [of os i w] u wait_out_Cons Let_def)
    next
      case False
      with "1.IH" [OF \<open>i < NUM_CHLD\<close> refl refl] \<open>i < NUM_CHLD\<close> show ?thesis
        by (simp add: wait_loop.simps [of os i w] u wait_out_Cons Let_def)
    qed
  qed
qed

lemma acts_wait_loop: "acts (wait_loop os i) (wait_out (map (wait_ret os) [i..<NUM_CHLD]))"
  by (simp add: acts_def wait_loop_eq)

definition pmc_out :: "string option \<Rightarrow> string \<Rightarrow> event list \<times> nat option" where
  "pmc_out fp msg =
     (case fp of
        None \<Rightarrow> ([Fopen ''/proc/meminfo'' ''r'' False, Perror ''file open'', Exit EXIT_FAILURE],
                 Some EXIT_FAILURE)
      | Some content \<Rightarrow>
          (Fopen ''/proc/meminfo'' ''r'' True # commit_out msg content @ [Fclose], None))"

definition fail_out :: "bool \<Rightarrow> string \<Rightarrow> event list \<times> nat option" where
  "fail_out b msg = (if b then ([Perror msg, Exit EXIT_FAILURE], Some EXIT_FAILURE) else ([], None))"

definition banner1 :: string where
  "banner1 = ''Test dnsmasq OOM: memory allocation and forking\<newline>''"

definition banner2 :: "int \<Rightarrow> string" where
  "banner2 shared =
     ''(allocate '' @ fmt_u ALLOC_MB @ '' MB '' @ (if shared \<noteq> 0 then ''shared'' else ''private'')
       @ '' anonymous, fork '' @ fmt_u NUM_CHLD @ '' processes)\<newline>''"

definition body_out :: "os \<Rightarrow> int \<Rightarrow> (event list \<times> nat option) list" where
  "body_out os shared =
     [([Stdout banner1], None),
      ([Stdout (banner2 shared)], None),
      pmc_out (meminfo os 0) ''initial state'',
      ([Mmap length_sz {PROT_READ, PROT_WRITE}
          {MAP_ANONYMOUS, if shared \<noteq> 0 then MAP_SHARED else MAP_PRIVATE} (mmap_ret os)], None),
      fail_out (mmap_ret os = MAP_FAILED) ''mmap'',
      pmc_out (meminfo os 1) ''parent mem allocated'',
      (map (\<lambda>k. Store (mmap_ret os + int sizeof_int * int k) (int k)) [0..<nslots], None),
      pmc_out (meminfo os 2) ''parent mem initialized'',
      ([Mprotect (mmap_ret os) length_sz {PROT_READ} (mprotect_ret os)], None),
      fail_out (mprotect_ret os = - 1) ''mprotect'',
      pmc_out (meminfo os 3) ''parent mem set-readonly'',
      fork_out (map (fork_ret os) [0..<NUM_CHLD]),
      pmc_out (meminfo os 4) ''parent forked children'',
      wait_out (map (wait_ret os) [0..<NUM_CHLD]),
      pmc_out (meminfo os 5) ''parent reaped children'',
      ([Munmap (mmap_ret os) length_sz (munmap_ret os)], None),
      pmc_out (meminfo os 6) ''parent mem unmapped'',
      ([Exit EXIT_SUCCESS], Some EXIT_SUCCESS)]"

lemma acts_pmc: "acts (print_mem_commit fp msg) (pmc_out fp msg)"
  using acts_print_mem_commit [of fp msg] by (simp add: pmc_out_def)

lemma acts_fail: "acts (fail_if b msg) (fail_out b msg)"
  using acts_fail_if [of b msg] by (simp add: fail_out_def)

lemma acts_init0:
  "acts (init_loop p 0) (map (\<lambda>k. Store (p + int sizeof_int * int k) (int k)) [0..<nslots], None)"
  using acts_init_loop [of p 0] by simp

lemma run_stmts_world0:
  "list_all2 acts ss bs \<Longrightarrow>
   trace (run_stmts ss world0) = seq_trace bs \<and> status (run_stmts ss world0) = seq_status bs"
  using run_stmts_acts [of ss bs world0] by (simp add: world0_def)

lemma main_body_out:
  "trace (main_body os shared world0) = seq_trace (body_out os shared) \<and>
   status (main_body os shared world0) = seq_status (body_out os shared)"
  unfolding main_body_def Let_def body_out_def banner1_def banner2_def
  by (intro run_stmts_world0 list.rel_intros acts_emit acts_pmc acts_fail acts_init0
        acts_fork_loop acts_wait_loop acts_exit)

lemma trace_pmc_world0: "trace (print_mem_commit fp msg world0) = fst (pmc_out fp msg)"
  using acts_pmc [of fp msg] by (simp add: acts_def world0_def)

lemma seq_trace_append:
  "seq_trace (xs @ ys) = seq_trace xs @ (if seq_status xs = None then seq_trace ys else [])"
  by (induction xs) simp_all

lemma list_all_seq_trace:
  "list_all (\<lambda>b. list_all Q (fst b)) bs \<Longrightarrow> list_all Q (seq_trace bs)"
  by (induction bs) simp_all

lemma filter_seq_trace_Cons:
  "filter P (seq_trace (b # r)) = filter P (fst b) @ (if snd b = None then filter P (seq_trace r) else [])"
  by simp

lemma filter_seq_trace_none:
  "list_all (\<lambda>b. filter P (fst b) = []) bs \<Longrightarrow> filter P (seq_trace bs) = []"
  by (induction bs) simp_all

section \<open>Every run ends in exit\<close>

lemma main_shared:
  "main os [prog, ''--shared''] = main_body os 1 world0"
  by (simp add: main_def)

lemma main_private:
  "main os [prog, ''--private''] = main_body os 0 world0"
  by (simp add: main_def)

lemma main_cases:
  "main os argv = usage argv world0 \<or> (\<exists>shared. main os argv = main_body os shared world0)"
  unfolding main_def Let_def by (metis (full_types))

definition seg_exit :: "event list \<times> nat option \<Rightarrow> bool" where
  "seg_exit b = (case snd b of None \<Rightarrow> True | Some c \<Rightarrow> fst b \<noteq> [] \<and> last (fst b) = Exit c)"

lemma seq_exit_last:
  "list_all seg_exit bs \<Longrightarrow> seq_status bs = Some c \<Longrightarrow>
   seq_trace bs \<noteq> [] \<and> last (seq_trace bs) = Exit c"
  by (induction bs) (auto simp: seg_exit_def split: if_splits option.splits)

lemma seq_status_last: "bs \<noteq> [] \<Longrightarrow> snd (last bs) \<noteq> None \<Longrightarrow> seq_status bs \<noteq> None"
  by (induction bs) (auto split: if_splits)

lemma seg_exit_pmc: "seg_exit (pmc_out fp msg)"
  by (cases fp) (simp_all add: seg_exit_def pmc_out_def)

lemma seg_exit_fail: "seg_exit (fail_out b msg)"
  by (simp add: seg_exit_def fail_out_def)

lemma seg_exit_fork: "seg_exit (fork_out rs)"
  by (induction rs) (auto simp: fork_out_Nil fork_out_Cons seg_exit_def split: option.splits)

lemma seg_exit_wait: "seg_exit (wait_out rs)"
  by (induction rs) (auto simp: wait_out_Nil wait_out_Cons seg_exit_def split: option.splits)

lemma seg_exit_body: "list_all seg_exit (body_out os shared)"
  by (simp add: body_out_def seg_exit_pmc seg_exit_fail seg_exit_fork seg_exit_wait)
     (simp add: seg_exit_def)

lemma body_exits:
  "\<exists>c. status (main_body os shared world0) = Some c
      \<and> trace (main_body os shared world0) \<noteq> []
      \<and> last (trace (main_body os shared world0)) = Exit c"
proof -
  have "seq_status (body_out os shared) \<noteq> None"
    by (rule seq_status_last) (simp_all add: body_out_def)
  then obtain c where c: "seq_status (body_out os shared) = Some c" by blast
  from seq_exit_last [OF seg_exit_body c] c show ?thesis by (simp add: main_body_out)
qed

lemma main_exits:
  "\<exists>c. status (main os argv) = Some c \<and> trace (main os argv) \<noteq> []
      \<and> last (trace (main os argv)) = Exit c"
proof -
  consider "main os argv = usage argv world0"
    | shared where "main os argv = main_body os shared world0"
    using main_cases [of os argv] by blast
  then show ?thesis
  proof cases
    case 1
    then show ?thesis by (simp add: usage_def world0_def)
  next
    case 2
    then show ?thesis using body_exits [of os shared] by simp
  qed
qed

lemma status_by_last: "last (trace (main os argv)) = Exit c \<Longrightarrow> status (main os argv) = Some c"
  using main_exits [of os argv] by auto

section \<open>The lines of the accounting source\<close>

text \<open>The lines of a text, without their newlines.\<close>

fun lines_of :: "string \<Rightarrow> string list" where
  "lines_of [] = []"
| "lines_of (c # cs) =
     (if c = CHR 0x0A then [] # lines_of cs
      else (case lines_of cs of [] \<Rightarrow> [[c]] | l # ls \<Rightarrow> (c # l) # ls))"

lemma lines_of_Nil_iff: "lines_of s = [] \<longleftrightarrow> s = []"
  by (cases s) (auto split: list.splits)

lemma lines_of_unfold:
  "s \<noteq> [] \<Longrightarrow>
   lines_of s = takeWhile (\<lambda>c. c \<noteq> CHR 0x0A) s # lines_of (drop 1 (dropWhile (\<lambda>c. c \<noteq> CHR 0x0A) s))"
proof (induction s)
  case Nil
  then show ?case by simp
next
  case (Cons c cs)
  show ?case
  proof (cases "c = CHR 0x0A")
    case True
    then show ?thesis by simp
  next
    case False
    show ?thesis
    proof (cases "cs = []")
      case True
      with False show ?thesis by simp
    next
      case ne: False
      from Cons.IH [OF ne] False show ?thesis by simp
    qed
  qed
qed

lemma fgets_read_short:
  "length (takeWhile (\<lambda>c. c \<noteq> CHR 0x0A) s) < n \<Longrightarrow>
   fgets_read n s = (takeWhile (\<lambda>c. c \<noteq> CHR 0x0A) s @ take 1 (dropWhile (\<lambda>c. c \<noteq> CHR 0x0A) s),
                     drop 1 (dropWhile (\<lambda>c. c \<noteq> CHR 0x0A) s))"
proof (induction n s rule: fgets_read.induct)
  case (1 n)
  then show ?case by simp
next
  case (2 n c cs)
  show ?case
  proof (cases "c = CHR 0x0A")
    case True
    with "2.prems" show ?thesis by simp
  next
    case False
    with "2.prems" have n: "n \<noteq> 0" and l: "length (takeWhile (\<lambda>c. c \<noteq> CHR 0x0A) cs) < n - 1"
      by auto
    from "2.IH" [OF n False l] n False show ?thesis by simp
  qed
qed

lemma fgets_read_full:
  "n \<le> length (takeWhile (\<lambda>c. c \<noteq> CHR 0x0A) s) \<Longrightarrow> fgets_read n s = (take n s, drop n s)"
proof (induction n s rule: fgets_read.induct)
  case (1 n)
  then show ?case by simp
next
  case (2 n c cs)
  show ?case
  proof (cases "n = 0")
    case True
    then show ?thesis by simp
  next
    case False
    with "2.prems" have c: "c \<noteq> CHR 0x0A" by (auto split: if_splits)
    with "2.prems" have l: "n - 1 \<le> length (takeWhile (\<lambda>c. c \<noteq> CHR 0x0A) cs)" by simp
    from "2.IH" [OF False c l] False c show ?thesis
      by (cases n) simp_all
  qed
qed

lemma matches_prefix: "matches buf \<longleftrightarrow> prefix memstr buf"
proof -
  have m: "c_str memstr = memstr" "length memstr = 13"
    by (simp_all add: c_str_def memstr_def)
  have nz: "CHR 0x00 \<notin> set memstr" by (simp add: memstr_def)
  show ?thesis
  proof
    assume "matches buf"
    then have "take 13 (c_str buf) = memstr"
      by (simp add: matches_def strncmp_eq_def strlen_def m)
    then have "prefix memstr (c_str buf)"
      by (metis take_is_prefix)
    moreover have "prefix (c_str buf) buf"
      unfolding c_str_def by (metis takeWhile_dropWhile_id prefixI)
    ultimately show "prefix memstr buf" by (rule prefix_order.trans)
  next
    assume "prefix memstr buf"
    then obtain r where r: "buf = memstr @ r" by (auto simp: prefix_def)
    have "takeWhile (\<lambda>c. c \<noteq> CHR 0x00) (memstr @ r) = memstr @ takeWhile (\<lambda>c. c \<noteq> CHR 0x00) r"
      by (rule takeWhile_append2) (use nz in auto)
    with r have "c_str buf = memstr @ c_str r"
      by (simp add: c_str_def)
    then show "matches buf"
      by (simp add: matches_def strncmp_eq_def strlen_def m)
  qed
qed

lemma commit_line_text:
  assumes "prefix memstr buf" and "CHR 0x00 \<notin> set buf"
  shows "commit_line msg buf = takeWhile (\<lambda>c. c \<noteq> CHR 0x0A) buf @ ''    ('' @ msg @ '')\<newline>''"
proof -
  from assms(1) obtain r where r: "buf = memstr @ r" by (auto simp: prefix_def)
  from assms(2) have c: "c_str buf = buf" by (auto simp: c_str_def)
  have "dropWhile (\<lambda>c. c \<in> set ''\<newline>'') buf = buf" by (simp add: r memstr_def)
  moreover have "buf \<noteq> []" by (simp add: r memstr_def)
  ultimately show ?thesis
    by (simp add: commit_line_def strtok_def c fmt_s_def)
qed

lemma prefix_memstr_newline:
  "prefix memstr (l @ take 1 r) \<longleftrightarrow> prefix memstr l" if "r = [] \<or> hd r = CHR 0x0A"
proof (cases r)
  case Nil
  then show ?thesis by simp
next
  case (Cons c cs)
  with that have c: "c = CHR 0x0A" by simp
  have "prefix memstr l" if "prefix memstr (l @ [CHR 0x0A])"
  proof -
    from that consider "prefix memstr l" | us where "memstr = l @ us" "prefix us [CHR 0x0A]"
      by (auto simp: prefix_append)
    then show ?thesis
    proof cases
      case 1
      then show ?thesis .
    next
      case 2
      from 2(2) have "us = [] \<or> us = [CHR 0x0A]" by (cases us) auto
      then show ?thesis
      proof
        assume "us = []"
        with 2(1) show ?thesis by simp
      next
        assume "us = [CHR 0x0A]"
        with 2(1) have "memstr = l @ [CHR 0x0A]" by simp
        then have "last memstr = CHR 0x0A" by (metis last_snoc)
        then show ?thesis by (simp add: memstr_def)
      qed
    qed
  qed
  with Cons c show ?thesis by auto
qed

lemma dropWhile_newline_hd:
  "dropWhile (\<lambda>c. c \<noteq> CHR 0x0A) s = [] \<or> hd (dropWhile (\<lambda>c. c \<noteq> CHR 0x0A) s) = CHR 0x0A"
  using hd_dropWhile [of "\<lambda>c. c \<noteq> CHR 0x0A" s] by auto

lemma commit_out_Nil: "commit_out msg [] = []"
  by (simp add: commit_out_unfold [of msg "[]"] fgets_def)

lemma commit_out_first_line:
  assumes "s \<noteq> []" and "length (takeWhile (\<lambda>c. c \<noteq> CHR 0x0A) s) < 100"
  shows "commit_out msg s =
           (if prefix memstr (takeWhile (\<lambda>c. c \<noteq> CHR 0x0A) s)
            then [Stdout (commit_line msg (fst (fgets_read 99 s)))] else [])
           @ commit_out msg (drop 1 (dropWhile (\<lambda>c. c \<noteq> CHR 0x0A) s))"
proof -
  let ?l = "takeWhile (\<lambda>c. c \<noteq> CHR 0x0A) s"
  let ?r = "dropWhile (\<lambda>c. c \<noteq> CHR 0x0A) s"
  have u: "commit_out msg s =
        (if matches (fst (fgets_read 99 s)) then [Stdout (commit_line msg (fst (fgets_read 99 s)))] else [])
        @ commit_out msg (snd (fgets_read 99 s))"
    using assms(1) by (simp add: commit_out_unfold [of msg s] fgets_def split: prod.splits)
  show ?thesis
  proof (cases "length ?l < 99")
    case True
    from fgets_read_short [OF True] have f: "fgets_read 99 s = (?l @ take 1 ?r, drop 1 ?r)" .
    show ?thesis
      using prefix_memstr_newline [OF dropWhile_newline_hd, of ?l s]
      by (simp add: u f matches_prefix)
  next
    case False
    with assms(2) have n: "length ?l = 99" by simp
    then have "fgets_read 99 s = (take 99 s, drop 99 s)"
      by (intro fgets_read_full) simp
    moreover have "take 99 s = ?l" using takeWhile_eq_take [of "\<lambda>c. c \<noteq> CHR 0x0A" s] n by simp
    moreover have "drop 99 s = ?r" using dropWhile_eq_drop [of "\<lambda>c. c \<noteq> CHR 0x0A" s] n by simp
    ultimately have f: "fgets_read 99 s = (?l, ?r)" by simp
    have "commit_out msg ?r = commit_out msg (drop 1 ?r)"
    proof (cases ?r)
      case Nil
      then show ?thesis by (metis drop_Nil)
    next
      case (Cons c cs)
      with dropWhile_newline_hd [of s] have c: "c = CHR 0x0A" by simp
      have "\<not> matches [CHR 0x0A]" by (simp add: matches_prefix memstr_def)
      with Cons c show ?thesis
        by (simp add: commit_out_unfold [of msg "CHR 0x0A # cs"] fgets_def)
    qed
    then show ?thesis by (simp add: u f matches_prefix)
  qed
qed

lemma takeWhile_take1_newline:
  "r = [] \<or> hd r = CHR 0x0A \<Longrightarrow> takeWhile (\<lambda>c. c \<noteq> CHR 0x0A) (take 1 r) = []"
  by (cases r) auto

lemma commit_line_first_line:
  assumes "s \<noteq> []" and "length (takeWhile (\<lambda>c. c \<noteq> CHR 0x0A) s) < 100"
    and "prefix memstr (takeWhile (\<lambda>c. c \<noteq> CHR 0x0A) s)" and "CHR 0x00 \<notin> set s"
  shows "commit_line msg (fst (fgets_read 99 s))
           = takeWhile (\<lambda>c. c \<noteq> CHR 0x0A) s @ ''    ('' @ msg @ '')\<newline>''"
proof -
  let ?l = "takeWhile (\<lambda>c. c \<noteq> CHR 0x0A) s"
  let ?r = "dropWhile (\<lambda>c. c \<noteq> CHR 0x0A) s"
  have b: "fst (fgets_read 99 s) = ?l \<or> fst (fgets_read 99 s) = ?l @ take 1 ?r"
  proof (cases "length ?l < 99")
    case True
    from fgets_read_short [OF True] show ?thesis by simp
  next
    case False
    with assms(2) have n: "length ?l = 99" by simp
    then have "fgets_read 99 s = (take 99 s, drop 99 s)"
      by (intro fgets_read_full) simp
    moreover have "take 99 s = ?l" using takeWhile_eq_take [of "\<lambda>c. c \<noteq> CHR 0x0A" s] n by simp
    ultimately show ?thesis by simp
  qed
  have p: "prefix (fst (fgets_read 99 s)) s"
    using b
  proof
    assume "fst (fgets_read 99 s) = ?l"
    then show ?thesis by (metis takeWhile_dropWhile_id prefixI)
  next
    assume a: "fst (fgets_read 99 s) = ?l @ take 1 ?r"
    have "s = (?l @ take 1 ?r) @ drop 1 ?r" by simp
    with a show ?thesis by (metis prefixI)
  qed
  then have z: "CHR 0x00 \<notin> set (fst (fgets_read 99 s))"
    using assms(4) set_mono_prefix [of "fst (fgets_read 99 s)" s] by auto
  have m: "prefix memstr (fst (fgets_read 99 s))"
    using b assms(3) by (auto intro: prefix_order.trans)
  have t: "takeWhile (\<lambda>c. c \<noteq> CHR 0x0A) (fst (fgets_read 99 s)) = ?l"
    using b
  proof
    assume "fst (fgets_read 99 s) = ?l"
    then show ?thesis by simp
  next
    assume a: "fst (fgets_read 99 s) = ?l @ take 1 ?r"
    have "takeWhile (\<lambda>c. c \<noteq> CHR 0x0A) (?l @ take 1 ?r)
            = ?l @ takeWhile (\<lambda>c. c \<noteq> CHR 0x0A) (take 1 ?r)"
      by (rule takeWhile_append2) (auto dest: set_takeWhileD)
    moreover have "takeWhile (\<lambda>c. c \<noteq> CHR 0x0A) (take 1 ?r) = []"
      by (rule takeWhile_take1_newline [OF dropWhile_newline_hd])
    ultimately have "takeWhile (\<lambda>c. c \<noteq> CHR 0x0A) (?l @ take 1 ?r) = ?l" by simp
    with a show ?thesis by simp
  qed
  from commit_line_text [OF m z, of msg] t show ?thesis by simp
qed

lemma commit_out_lines:
  assumes "list_all (\<lambda>l. length l < 100) (lines_of s)" and "CHR 0x00 \<notin> set s"
  shows "commit_out msg s
           = map (\<lambda>l. Stdout (l @ ''    ('' @ msg @ '')\<newline>'')) (filter (prefix memstr) (lines_of s))"
  using assms
proof (induction "length s" arbitrary: s rule: less_induct)
  case less
  show ?case
  proof (cases "s = []")
    case True
    then show ?thesis by (simp add: commit_out_Nil)
  next
    case False
    let ?l = "takeWhile (\<lambda>c. c \<noteq> CHR 0x0A) s"
    let ?s' = "drop 1 (dropWhile (\<lambda>c. c \<noteq> CHR 0x0A) s)"
    have u: "lines_of s = ?l # lines_of ?s'" by (rule lines_of_unfold [OF False])
    with less.prems(1) have l: "length ?l < 100" and r: "list_all (\<lambda>l. length l < 100) (lines_of ?s')"
      by simp_all
    have sh: "length ?s' < length s"
    proof -
      have a: "length ?s' = length (dropWhile (\<lambda>c. c \<noteq> CHR 0x0A) s) - 1" by simp
      have b: "length (dropWhile (\<lambda>c. c \<noteq> CHR 0x0A) s) \<le> length s"
        by (rule length_dropWhile_le)
      have c: "0 < length s" using False by simp
      from a b c show ?thesis by linarith
    qed
    have z: "CHR 0x00 \<notin> set ?s'"
      using less.prems(2) by (meson in_set_dropD set_dropWhileD)
    from less.hyps [OF sh r z] commit_out_first_line [OF False l, of msg]
      commit_line_first_line [OF False l _ less.prems(2), of msg]
    show ?thesis by (simp add: u)
  qed
qed

lemma commit_out_no_metric:
  assumes "list_all (\<lambda>l. length l < 100) (lines_of s)" and "filter (prefix memstr) (lines_of s) = []"
  shows "commit_out msg s = []"
  using assms
proof (induction "length s" arbitrary: s rule: less_induct)
  case less
  show ?case
  proof (cases "s = []")
    case True
    then show ?thesis by (simp add: commit_out_Nil)
  next
    case False
    let ?l = "takeWhile (\<lambda>c. c \<noteq> CHR 0x0A) s"
    let ?s' = "drop 1 (dropWhile (\<lambda>c. c \<noteq> CHR 0x0A) s)"
    have u: "lines_of s = ?l # lines_of ?s'" by (rule lines_of_unfold [OF False])
    with less.prems(1) have l: "length ?l < 100" and r: "list_all (\<lambda>l. length l < 100) (lines_of ?s')"
      by simp_all
    from u less.prems(2) have n: "\<not> prefix memstr ?l" and f: "filter (prefix memstr) (lines_of ?s') = []"
      by (auto split: if_splits)
    have sh: "length ?s' < length s"
    proof -
      have a: "length ?s' = length (dropWhile (\<lambda>c. c \<noteq> CHR 0x0A) s) - 1" by simp
      have b: "length (dropWhile (\<lambda>c. c \<noteq> CHR 0x0A) s) \<le> length s"
        by (rule length_dropWhile_le)
      have c: "0 < length s" using False by simp
      from a b c show ?thesis by linarith
    qed
    from less.hyps [OF sh r f] commit_out_first_line [OF False l, of msg] n
    show ?thesis by simp
  qed
qed

text \<open>A text the reporter reads line by line: no NUL byte, every line shorter than \<open>buf\<close>.\<close>

definition text_ok :: "string \<Rightarrow> bool" where
  "text_ok content = (list_all (\<lambda>l. length l < 100) (lines_of content) \<and> CHR 0x00 \<notin> set content)"

text \<open>The lines whose key is the metric name.\<close>

definition metric_lines :: "string \<Rightarrow> string list" where
  "metric_lines content = filter (prefix memstr) (lines_of content)"

lemma pmc_Some:
  "print_mem_commit (Some content) msg w =
     w\<lparr>trace := trace w @ Fopen ''/proc/meminfo'' ''r'' True # commit_out msg content @ [Fclose]\<rparr>"
  by (simp add: print_mem_commit_def scan_loop_eq emit_def)

section \<open>What follows a call\<close>

text \<open>
  \<open>follows req tr\<close>: when the trace \<open>tr\<close> holds an event \<open>e\<close> with \<open>req e = Some k\<close>, the
  events after the first such event are exactly \<open>k\<close>.
\<close>

fun follows :: "(event \<Rightarrow> event list option) \<Rightarrow> event list \<Rightarrow> bool" where
  "follows req [] = True"
| "follows req (e # es) = (case req e of None \<Rightarrow> follows req es | Some k \<Rightarrow> es = k)"

definition clean :: "(event \<Rightarrow> event list option) \<Rightarrow> event list \<Rightarrow> bool" where
  "clean req es = list_all (\<lambda>e. req e = None) es"

lemma follows_clean_append: "clean req xs \<Longrightarrow> follows req (xs @ ys) = follows req ys"
  by (induction xs) (simp_all add: clean_def)

lemma follows_clean: "clean req xs \<Longrightarrow> follows req xs"
  using follows_clean_append [of req xs "[]"] by simp

definition seg_ok :: "(event \<Rightarrow> event list option) \<Rightarrow> event list \<times> nat option \<Rightarrow> bool" where
  "seg_ok req b = (if snd b = None then clean req (fst b) else follows req (fst b))"

lemma follows_step:
  "seg_ok req b \<Longrightarrow> follows req (seq_trace r) \<Longrightarrow> follows req (seq_trace (b # r))"
  by (simp add: seg_ok_def follows_clean_append split: if_splits)

lemma seg_ok_clean: "clean req es \<Longrightarrow> seg_ok req (es, st)"
  by (simp add: seg_ok_def follows_clean)

lemma clean_commit_out: "(\<And>s. req (Stdout s) = None) \<Longrightarrow> clean req (commit_out msg fp)"
  by (simp add: clean_def commit_out_def list_all_iff)

lemma follows_split:
  assumes "follows req tr" and "tr = pre @ e # post" and "req e = Some k"
    and "\<And>e' k'. req e' = Some k' \<Longrightarrow> clean req k'"
  shows "post = k"
  using assms(1,2)
proof (induction pre arbitrary: tr)
  case Nil
  with assms(3) show ?case by simp
next
  case (Cons a pre)
  show ?case
  proof (cases "req a")
    case None
    with Cons.prems have "follows req (pre @ e # post)" by simp
    from Cons.IH [OF this refl] show ?thesis .
  next
    case (Some m)
    with Cons.prems have "pre @ e # post = m" by simp
    then have "e \<in> set m" by auto
    moreover have "clean req m" by (rule assms(4) [OF Some])
    ultimately have "req e = None" by (simp add: clean_def list_all_iff)
    with assms(3) show ?thesis by simp
  qed
qed

section \<open>The run in which every request succeeds\<close>

text \<open>Every resource request of the parent succeeds.\<close>

definition all_ok :: "os \<Rightarrow> bool" where
  "all_ok os =
     (list_all (\<lambda>k. meminfo os k \<noteq> None) [0..<7]
      \<and> mmap_ret os \<noteq> MAP_FAILED
      \<and> mprotect_ret os \<noteq> - 1
      \<and> list_all (\<lambda>i. fork_ret os i \<noteq> 0 \<and> fork_ret os i \<noteq> - 1) [0..<NUM_CHLD]
      \<and> list_all (\<lambda>i. wait_ret os i \<noteq> - 1) [0..<NUM_CHLD])"

lemma fork_out_ok: "list_all (\<lambda>r. r \<noteq> 0 \<and> r \<noteq> - 1) rs \<Longrightarrow> fork_out rs = (map Fork rs, None)"
  by (induction rs) (simp_all add: fork_out_Nil fork_out_Cons)

lemma wait_out_ok: "list_all (\<lambda>r. r \<noteq> - 1) rs \<Longrightarrow> wait_out rs = (map Wait rs, None)"
  by (induction rs) (simp_all add: wait_out_Nil wait_out_Cons)

lemma pmc_out_Some: "fp \<noteq> None \<Longrightarrow> snd (pmc_out fp msg) = None"
  by (auto simp: pmc_out_def)

lemma all_ok_meminfo: "all_ok os \<Longrightarrow> k < 7 \<Longrightarrow> meminfo os k \<noteq> None"
  by (simp add: all_ok_def list_all_iff)

lemma all_ok_trace:
  assumes "all_ok os"
  shows "trace (main_body os shared world0) =
           [Stdout banner1, Stdout (banner2 shared)]
           @ fst (pmc_out (meminfo os 0) ''initial state'')
           @ [Mmap length_sz {PROT_READ, PROT_WRITE}
                {MAP_ANONYMOUS, if shared \<noteq> 0 then MAP_SHARED else MAP_PRIVATE} (mmap_ret os)]
           @ fst (pmc_out (meminfo os 1) ''parent mem allocated'')
           @ map (\<lambda>k. Store (mmap_ret os + int sizeof_int * int k) (int k)) [0..<nslots]
           @ fst (pmc_out (meminfo os 2) ''parent mem initialized'')
           @ [Mprotect (mmap_ret os) length_sz {PROT_READ} (mprotect_ret os)]
           @ fst (pmc_out (meminfo os 3) ''parent mem set-readonly'')
           @ map Fork (map (fork_ret os) [0..<NUM_CHLD])
           @ fst (pmc_out (meminfo os 4) ''parent forked children'')
           @ map Wait (map (wait_ret os) [0..<NUM_CHLD])
           @ fst (pmc_out (meminfo os 5) ''parent reaped children'')
           @ [Munmap (mmap_ret os) length_sz (munmap_ret os)]
           @ fst (pmc_out (meminfo os 6) ''parent mem unmapped'')
           @ [Exit EXIT_SUCCESS]
         \<and> status (main_body os shared world0) = Some EXIT_SUCCESS"
proof -
  from assms have f: "fork_out (map (fork_ret os) [0..<NUM_CHLD]) = (map Fork (map (fork_ret os) [0..<NUM_CHLD]), None)"
    by (intro fork_out_ok) (simp add: all_ok_def list_all_iff)
  from assms have w: "wait_out (map (wait_ret os) [0..<NUM_CHLD]) = (map Wait (map (wait_ret os) [0..<NUM_CHLD]), None)"
    by (intro wait_out_ok) (simp add: all_ok_def list_all_iff)
  from assms have c: "mmap_ret os \<noteq> MAP_FAILED" "mprotect_ret os \<noteq> - 1"
    by (simp_all add: all_ok_def)
  have p: "snd (pmc_out (meminfo os 0) msg) = None" "snd (pmc_out (meminfo os 1) msg) = None"
    "snd (pmc_out (meminfo os 2) msg) = None" "snd (pmc_out (meminfo os 3) msg) = None"
    "snd (pmc_out (meminfo os 4) msg) = None" "snd (pmc_out (meminfo os 5) msg) = None"
    "snd (pmc_out (meminfo os 6) msg) = None" for msg
    using all_ok_meminfo [OF assms] by (simp_all add: pmc_out_Some)
  show ?thesis
    by (simp add: main_body_out body_out_def f w c p fail_out_def del: One_nat_def)
qed

section \<open>Sample answers of the operating system and sample runs\<close>

definition meminfo_sample :: string where
  "meminfo_sample =
     ''MemTotal:         124388 kB\<newline>Committed_AS:      41236 kB\<newline>VmallocTotal:    1032192 kB\<newline>''"

text \<open>Every request succeeds; the process is the parent.\<close>

definition os_ok :: os where
  "os_ok = \<lparr>meminfo = (\<lambda>k. Some meminfo_sample), mmap_ret = 4096, mprotect_ret = 0,
            fork_ret = (\<lambda>i. 100 + int i), wait_ret = (\<lambda>i. 115 - int i), munmap_ret = 0\<rparr>"

lemma sample_lines:
  "lines_of meminfo_sample =
     [''MemTotal:         124388 kB'', ''Committed_AS:      41236 kB'', ''VmallocTotal:    1032192 kB'']"
  by (simp add: meminfo_sample_def)

lemma sample_commit:
  "commit_out msg meminfo_sample = [Stdout (''Committed_AS:      41236 kB    ('' @ msg @ '')\<newline>'')]"
proof -
  have "CHR 0x00 \<notin> set meminfo_sample" by (simp add: meminfo_sample_def)
  from commit_out_lines [OF _ this, of msg] show ?thesis
    by (simp add: sample_lines memstr_def)
qed

lemma all_ok_os_ok: "all_ok os_ok"
  by (simp add: all_ok_def os_ok_def MAP_FAILED_def NUM_CHLD_def list_all_iff)

lemma char_of_digits:
  "char_of (48 :: nat) = CHR ''0''" "char_of (49 :: nat) = CHR ''1''" "char_of (50 :: nat) = CHR ''2''"
  "char_of (51 :: nat) = CHR ''3''" "char_of (52 :: nat) = CHR ''4''" "char_of (53 :: nat) = CHR ''5''"
  "char_of (54 :: nat) = CHR ''6''" "char_of (55 :: nat) = CHR ''7''" "char_of (56 :: nat) = CHR ''8''"
  "char_of (57 :: nat) = CHR ''9''"
  by (simp_all add: char_of_def bit_iff_odd)

lemma banner2_shared: "banner2 1 = ''(allocate 64 MB shared anonymous, fork 16 processes)\<newline>''"
  by (simp add: banner2_def ALLOC_MB_def NUM_CHLD_def char_of_digits)

lemma banner2_private: "banner2 0 = ''(allocate 64 MB private anonymous, fork 16 processes)\<newline>''"
  by (simp add: banner2_def ALLOC_MB_def NUM_CHLD_def char_of_digits)

text \<open>The events of one checkpoint when the accounting source is \<open>meminfo_sample\<close>.\<close>

definition sample_checkpoint :: "string \<Rightarrow> event list" where
  "sample_checkpoint msg =
     [Fopen ''/proc/meminfo'' ''r'' True,
      Stdout (''Committed_AS:      41236 kB    ('' @ msg @ '')\<newline>''),
      Fclose]"

lemma pmc_out_sample: "pmc_out (Some meminfo_sample) msg = (sample_checkpoint msg, None)"
  by (simp add: pmc_out_def sample_commit sample_checkpoint_def)

lemma run_ok_shared:
  "trace (main os_ok [''./oom_alloc'', ''--shared'']) =
     [Stdout ''Test dnsmasq OOM: memory allocation and forking\<newline>'',
      Stdout ''(allocate 64 MB shared anonymous, fork 16 processes)\<newline>'']
     @ sample_checkpoint ''initial state''
     @ [Mmap 67108864 {PROT_READ, PROT_WRITE} {MAP_ANONYMOUS, MAP_SHARED} 4096]
     @ sample_checkpoint ''parent mem allocated''
     @ map (\<lambda>k. Store (4096 + 4 * int k) (int k)) [0..<16777216]
     @ sample_checkpoint ''parent mem initialized''
     @ [Mprotect 4096 67108864 {PROT_READ} 0]
     @ sample_checkpoint ''parent mem set-readonly''
     @ map (\<lambda>i. Fork (100 + int i)) [0..<16]
     @ sample_checkpoint ''parent forked children''
     @ map (\<lambda>i. Wait (115 - int i)) [0..<16]
     @ sample_checkpoint ''parent reaped children''
     @ [Munmap 4096 67108864 0]
     @ sample_checkpoint ''parent mem unmapped''
     @ [Exit 0]"
  using all_ok_trace [OF all_ok_os_ok, of 1]
  by (simp add: main_shared os_ok_def pmc_out_sample banner1_def banner2_shared length_sz_def
        ALLOC_MB_def nslots_eq sizeof_int_def NUM_CHLD_def EXIT_SUCCESS_def comp_def
        del: upt_Suc)

definition os_mmap_fails :: os where
  "os_mmap_fails = os_ok\<lparr>mmap_ret := MAP_FAILED\<rparr>"

lemma run_mmap_fails:
  "trace (main os_mmap_fails [''./oom_alloc'', ''--private'']) =
     [Stdout ''Test dnsmasq OOM: memory allocation and forking\<newline>'',
      Stdout ''(allocate 64 MB private anonymous, fork 16 processes)\<newline>'',
      Fopen ''/proc/meminfo'' ''r'' True,
      Stdout ''Committed_AS:      41236 kB    (initial state)\<newline>'',
      Fclose,
      Mmap 67108864 {PROT_READ, PROT_WRITE} {MAP_ANONYMOUS, MAP_PRIVATE} (- 1),
      Perror ''mmap'', Exit 1]"
  by (simp add: main_private main_body_out body_out_def pmc_out_def os_mmap_fails_def os_ok_def
      sample_commit fail_out_def banner1_def banner2_private MAP_FAILED_def EXIT_FAILURE_def
      length_sz_def ALLOC_MB_def)

definition os_fopen_fails :: os where
  "os_fopen_fails = os_ok\<lparr>meminfo := (\<lambda>k. if k = 0 then None else Some meminfo_sample)\<rparr>"

lemma run_fopen_fails:
  "trace (main os_fopen_fails [''./oom_alloc'', ''--shared'']) =
     [Stdout ''Test dnsmasq OOM: memory allocation and forking\<newline>'',
      Stdout ''(allocate 64 MB shared anonymous, fork 16 processes)\<newline>'',
      Fopen ''/proc/meminfo'' ''r'' False, Perror ''file open'', Exit 1]"
  by (simp add: main_shared main_body_out body_out_def pmc_out_def os_fopen_fails_def os_ok_def
      banner1_def banner2_shared EXIT_FAILURE_def)

definition os_child :: os where
  "os_child = os_ok\<lparr>fork_ret := (\<lambda>i. if i = 2 then 0 else 100 + int i)\<rparr>"

lemma run_child:
  "trace (main os_child [''./oom_alloc'', ''--shared'']) =
     ([Stdout ''Test dnsmasq OOM: memory allocation and forking\<newline>'',
       Stdout ''(allocate 64 MB shared anonymous, fork 16 processes)\<newline>'']
      @ sample_checkpoint ''initial state''
      @ [Mmap 67108864 {PROT_READ, PROT_WRITE} {MAP_ANONYMOUS, MAP_SHARED} 4096]
      @ sample_checkpoint ''parent mem allocated''
      @ map (\<lambda>k. Store (4096 + 4 * int k) (int k)) [0..<16777216]
      @ sample_checkpoint ''parent mem initialized''
      @ [Mprotect 4096 67108864 {PROT_READ} 0]
      @ sample_checkpoint ''parent mem set-readonly''
      @ [Fork 100, Fork 101])
     @ Fork 0 # [Sleep 3, Exit 0]"
proof -
  have "[0..<NUM_CHLD] = 0 # 1 # 2 # [3..<16]"
    by (simp add: NUM_CHLD_def upt_conv_Cons)
  then have f: "fork_out (map (fork_ret os_child) [0..<NUM_CHLD])
           = ([Fork 100, Fork 101, Fork 0, Sleep 3, Exit 0], Some 0)"
    by (simp add: fork_out_Cons os_child_def os_ok_def EXIT_SUCCESS_def)
  have o: "meminfo os_child = (\<lambda>k. Some meminfo_sample)" "mmap_ret os_child = 4096"
    "mprotect_ret os_child = 0"
    by (simp_all add: os_child_def os_ok_def)
  show ?thesis
    by (simp add: main_shared main_body_out body_out_def f o pmc_out_sample
        banner1_def banner2_shared fail_out_def MAP_FAILED_def length_sz_def ALLOC_MB_def
        nslots_eq sizeof_int_def del: upt_Suc)
qed



section \<open>Argument resolution\<close>

text \<open>
  Claim C3. Whenever the argument vector (program name first, so not empty) is not the
  program name followed by exactly \<open>--shared\<close> or exactly \<open>--private\<close>, whatever the
  operating system would answer, the run consists of one \<open>fprintf\<close> of the usage line
  \<open>argv[0] [ --shared | --private ]\<close> to the error stream followed by
  \<open>exit(EXIT_FAILURE)\<close>, a non-zero status; nothing is written to the standard output,
  so no memory-commit line is printed.
\<close>

theorem usage_on_bad_arguments:
  assumes "argv \<noteq> []"
    and "\<not> (length argv = 2 \<and> (argv ! 1 = ''--shared'' \<or> argv ! 1 = ''--private''))"
  shows "trace (main os argv)
           = [Stderr (argv ! 0 @ '' [ --shared | --private ]\<newline>''), Exit EXIT_FAILURE]
       \<and> status (main os argv) = Some EXIT_FAILURE \<and> EXIT_FAILURE \<noteq> 0
       \<and> (\<forall>s. Stdout s \<notin> set (trace (main os argv)))"
  using assms(2) by (auto simp: main_def usage_def world0_def EXIT_FAILURE_def Let_def)

theorem usage_on_bad_arguments_witness:
  "trace (main os_ok [''./oom_alloc'', ''--both''])
     = [Stderr ''./oom_alloc [ --shared | --private ]\<newline>'', Exit 1]
   \<and> trace (main os_ok [''./oom_alloc''])
     = [Stderr ''./oom_alloc [ --shared | --private ]\<newline>'', Exit 1]
   \<and> trace (main os_ok [''./oom_alloc'', ''--shared'', ''--private''])
     = [Stderr ''./oom_alloc [ --shared | --private ]\<newline>'', Exit 1]"
  using usage_on_bad_arguments [of "[''./oom_alloc'', ''--both'']" os_ok]
    usage_on_bad_arguments [of "[''./oom_alloc'']" os_ok]
    usage_on_bad_arguments [of "[''./oom_alloc'', ''--shared'', ''--private'']" os_ok]
  by (simp add: EXIT_FAILURE_def)

section \<open>Allocation\<close>

lemma mmap_commit_out: "filter is_mmap (commit_out msg fp) = []"
  by (simp add: commit_out_def filter_empty_conv)

lemma mmap_pmc: "filter is_mmap (fst (pmc_out fp msg)) = []"
  by (cases fp) (simp_all add: pmc_out_def mmap_commit_out)

lemma mmap_fail: "filter is_mmap (fst (fail_out b msg)) = []"
  by (simp add: fail_out_def)

lemma mmap_fork: "filter is_mmap (fst (fork_out rs)) = []"
  by (induction rs) (simp_all add: fork_out_Nil fork_out_Cons)

lemma mmap_wait: "filter is_mmap (fst (wait_out rs)) = []"
  by (induction rs) (simp_all add: wait_out_Nil wait_out_Cons)

lemma mmap_stores: "filter is_mmap (map (\<lambda>k. Store (f k) (g k)) xs) = []"
  by (simp add: filter_empty_conv)

lemma mmap_body:
  "filter is_mmap (seq_trace (body_out os shared)) =
     (if meminfo os 0 = None then []
      else [Mmap length_sz {PROT_READ, PROT_WRITE}
              {MAP_ANONYMOUS, if shared \<noteq> 0 then MAP_SHARED else MAP_PRIVATE} (mmap_ret os)])"
proof -
  define rest where "rest =
     [fail_out (mmap_ret os = MAP_FAILED) ''mmap'',
      pmc_out (meminfo os 1) ''parent mem allocated'',
      (map (\<lambda>k. Store (mmap_ret os + int sizeof_int * int k) (int k)) [0..<nslots], None),
      pmc_out (meminfo os 2) ''parent mem initialized'',
      ([Mprotect (mmap_ret os) length_sz {PROT_READ} (mprotect_ret os)], None),
      fail_out (mprotect_ret os = - 1) ''mprotect'',
      pmc_out (meminfo os 3) ''parent mem set-readonly'',
      fork_out (map (fork_ret os) [0..<NUM_CHLD]),
      pmc_out (meminfo os 4) ''parent forked children'',
      wait_out (map (wait_ret os) [0..<NUM_CHLD]),
      pmc_out (meminfo os 5) ''parent reaped children'',
      ([Munmap (mmap_ret os) length_sz (munmap_ret os)], None),
      pmc_out (meminfo os 6) ''parent mem unmapped'',
      ([Exit EXIT_SUCCESS], Some EXIT_SUCCESS)]"
  have b: "body_out os shared =
     ([Stdout banner1], None) # ([Stdout (banner2 shared)], None)
       # pmc_out (meminfo os 0) ''initial state''
       # ([Mmap length_sz {PROT_READ, PROT_WRITE}
             {MAP_ANONYMOUS, if shared \<noteq> 0 then MAP_SHARED else MAP_PRIVATE} (mmap_ret os)], None)
       # rest"
    by (simp add: body_out_def rest_def)
  have r: "filter is_mmap (seq_trace rest) = []"
    unfolding rest_def
    by (rule filter_seq_trace_none)
       (simp add: mmap_pmc mmap_fail mmap_fork mmap_wait mmap_stores)
  have p: "snd (pmc_out (meminfo os 0) ''initial state'') = None \<longleftrightarrow> meminfo os 0 \<noteq> None"
    by (cases "meminfo os 0") (simp_all add: pmc_out_def)
  show ?thesis
    by (simp add: b r mmap_pmc p)
qed

text \<open>
  Claim C4. In a run with the argument \<open>--shared\<close> or \<open>--private\<close>, \<open>mmap\<close> is called
  exactly once if the first checkpoint could open the accounting source, and never
  otherwise. The call asks for \<open>length = 64 * 1024 * 1024 = 67108864\<close> bytes, readable and
  writable, anonymous, and shared for \<open>--shared\<close>, private for \<open>--private\<close>; the mode is
  the one parsed from the argument and nothing changes it.
\<close>

theorem mmap_request:
  assumes "arg = ''--shared'' \<or> arg = ''--private''"
  shows "filter is_mmap (trace (main os [prog, arg])) =
           (if meminfo os 0 = None then []
            else [Mmap 67108864 {PROT_READ, PROT_WRITE}
                    {MAP_ANONYMOUS, if arg = ''--shared'' then MAP_SHARED else MAP_PRIVATE}
                    (mmap_ret os)])
       \<and> length_sz = 64 * 1024 * 1024"
proof -
  have l: "length_sz = 67108864" by (simp add: length_sz_def ALLOC_MB_def)
  from assms show ?thesis
  proof
    assume "arg = ''--shared''"
    then show ?thesis by (simp add: main_shared main_body_out mmap_body l)
  next
    assume "arg = ''--private''"
    then show ?thesis by (simp add: main_private main_body_out mmap_body l)
  qed
qed

theorem mmap_request_witness:
  "filter is_mmap (trace (main os_ok [''./oom_alloc'', ''--shared'']))
     = [Mmap 67108864 {PROT_READ, PROT_WRITE} {MAP_ANONYMOUS, MAP_SHARED} 4096]
   \<and> filter is_mmap (trace (main os_ok [''./oom_alloc'', ''--private'']))
     = [Mmap 67108864 {PROT_READ, PROT_WRITE} {MAP_ANONYMOUS, MAP_PRIVATE} 4096]"
  using mmap_request [of "''--shared''" os_ok "''./oom_alloc''"]
    mmap_request [of "''--private''" os_ok "''./oom_alloc''"]
  by (simp add: os_ok_def)

section \<open>Initialisation\<close>

lemma store_pmc: "filter is_store (fst (pmc_out fp msg)) = []"
  by (cases fp) (simp_all add: pmc_out_def commit_out_def filter_empty_conv)

lemma store_map_Store: "filter is_store (map (\<lambda>k. Store (f k) (g k)) xs) = map (\<lambda>k. Store (f k) (g k)) xs"
  by (induction xs) simp_all

lemma store_map_Fork: "filter is_store (map (\<lambda>k. Fork (f k)) xs) = []"
  by (induction xs) simp_all

lemma store_map_Wait: "filter is_store (map (\<lambda>k. Wait (f k)) xs) = []"
  by (induction xs) simp_all

lemma stores_all_ok:
  assumes "all_ok os"
  shows "filter is_store (trace (main_body os shared world0))
           = map (\<lambda>k. Store (mmap_ret os + 4 * int k) (int k)) [0..<16777216]"
  by (simp add: all_ok_trace [OF assms] store_pmc store_map_Store store_map_Fork store_map_Wait
        nslots_eq sizeof_int_def comp_def del: upt_Suc)

text \<open>
  Claim C2. Started at the address \<open>addr\<close> of the region, the loop of lines 98-99 makes
  16777216 stores: the \<open>k\<close>-th writes the value \<open>k\<close> into the \<open>int\<close> at \<open>addr + 4 * k\<close>.
  The values 0, 1, 2, ... are strictly increasing (and stay inside the range of
  \<open>int\<close>), the addresses are strictly increasing, the 16777216 slots of 4 bytes are the
  whole region of \<open>length\<close> bytes, each written once; and reading the slots back in
  address order right after the loop gives 0, 1, 2, ... again. The loop does not exit.
  In the run of \<open>main\<close> in which every request succeeds these are all the stores of the
  run, made at the address \<open>mmap\<close> returned.
\<close>

theorem init_loop_writes_index_sequence:
  "trace (init_loop addr 0 w)
     = trace w @ map (\<lambda>k. Store (addr + 4 * int k) (int k)) [0..<16777216]
   \<and> map (\<lambda>k. mem (init_loop addr 0 w) (addr + 4 * int k)) [0..<16777216]
     = map (\<lambda>k. Some (int k)) [0..<16777216]
   \<and> sorted_wrt (<) (map int [0..<16777216])
   \<and> sorted_wrt (<) (map (\<lambda>k. addr + 4 * int k) [0..<16777216])
   \<and> 4 * 16777216 = length_sz
   \<and> int 16777216 \<le> 2 ^ 31
   \<and> status (init_loop addr 0 w) = status w
   \<and> (all_ok os \<and> (arg = ''--shared'' \<or> arg = ''--private'') \<longrightarrow>
        filter is_store (trace (main os [prog, arg]))
          = map (\<lambda>k. Store (mmap_ret os + 4 * int k) (int k)) [0..<16777216])"
proof -
  have t: "trace (init_loop addr 0 w)
     = trace w @ map (\<lambda>k. Store (addr + 4 * int k) (int k)) [0..<16777216]"
    using init_loop_trace [of addr 0 w] by (simp add: nslots_eq sizeof_int_def)
  have m: "map (\<lambda>k. mem (init_loop addr 0 w) (addr + 4 * int k)) [0..<16777216]
     = map (\<lambda>k. Some (int k)) [0..<16777216]"
  proof (rule map_cong [OF refl])
    fix k :: nat assume "k \<in> set [0..<16777216]"
    then have "k < nslots" by (simp add: nslots_eq)
    from init_loop_mem [OF _ this, of 0 addr w]
    show "mem (init_loop addr 0 w) (addr + 4 * int k) = Some (int k)"
      by (simp add: sizeof_int_def)
  qed
  have s1: "sorted_wrt (<) (map int [0..<16777216])"
    by (simp add: sorted_wrt_map sorted_wrt_iff_nth_less del: upt_Suc)
  have s2: "sorted_wrt (<) (map (\<lambda>k. addr + 4 * int k) [0..<16777216])"
    by (simp add: sorted_wrt_map sorted_wrt_iff_nth_less del: upt_Suc)
  have l: "4 * 16777216 = length_sz" by (simp add: length_sz_def ALLOC_MB_def)
  have r: "all_ok os \<and> (arg = ''--shared'' \<or> arg = ''--private'') \<longrightarrow>
        filter is_store (trace (main os [prog, arg]))
          = map (\<lambda>k. Store (mmap_ret os + 4 * int k) (int k)) [0..<16777216]"
  proof
    assume a: "all_ok os \<and> (arg = ''--shared'' \<or> arg = ''--private'')"
    then obtain shared where "main os [prog, arg] = main_body os shared world0"
      by (auto simp: main_def)
    with a stores_all_ok [of os shared]
    show "filter is_store (trace (main os [prog, arg]))
          = map (\<lambda>k. Store (mmap_ret os + 4 * int k) (int k)) [0..<16777216]"
      by simp
  qed
  from t m s1 s2 l r show ?thesis by (simp add: init_loop_status del: upt_Suc)
qed

theorem init_loop_writes_index_sequence_witness:
  "filter is_store (trace (main os_ok [''./oom_alloc'', ''--shared'']))
     = map (\<lambda>k. Store (4096 + 4 * int k) (int k)) [0..<16777216]
   \<and> map (\<lambda>k. mem (init_loop 4096 0 world0) (4096 + 4 * int k)) [0..<16777216]
     = map (\<lambda>k. Some (int k)) [0..<16777216]"
  using init_loop_writes_index_sequence [of 4096 world0 os_ok "''--shared''" "''./oom_alloc''"]
    all_ok_os_ok
  by (simp add: os_ok_def del: upt_Suc)

section \<open>After the protection change\<close>

lemma list_all_after:
  assumes "a @ b = pre @ e # post" and "list_all Q1 a" and "list_all Q2 b" and "\<not> Q1 e"
  shows "list_all Q2 post"
proof -
  from assms(1) consider us where "a = pre @ us" "us @ b = e # post"
    | us where "a @ us = pre" "b = us @ e # post"
    by (auto simp: append_eq_append_conv2)
  then show ?thesis
  proof cases
    case 1
    show ?thesis
    proof (cases us)
      case Nil
      with 1(2) assms(3) show ?thesis by simp
    next
      case (Cons u us')
      with 1 have "e \<in> set a" by simp
      with assms(2,4) show ?thesis by (simp add: list_all_iff)
    qed
  next
    case 2
    with assms(3) show ?thesis by simp
  qed
qed

definition quiet :: "event \<Rightarrow> bool" where
  "quiet e = (\<not> is_store e \<and> \<not> is_mmap e)"

lemma quiet_pmc: "list_all quiet (fst (pmc_out fp msg))"
  by (cases fp) (simp_all add: pmc_out_def commit_out_def quiet_def list_all_iff)

lemma quiet_fail: "list_all quiet (fst (fail_out b msg))"
  by (simp add: fail_out_def quiet_def)

lemma quiet_fork: "list_all quiet (fst (fork_out rs))"
  by (induction rs) (simp_all add: fork_out_Nil fork_out_Cons quiet_def)

lemma quiet_wait: "list_all quiet (fst (wait_out rs))"
  by (induction rs) (simp_all add: wait_out_Nil wait_out_Cons quiet_def)

lemma unprot_pmc: "list_all (\<lambda>e. \<not> is_mprotect e) (fst (pmc_out fp msg))"
  by (cases fp) (simp_all add: pmc_out_def commit_out_def list_all_iff)

lemma unprot_fail: "list_all (\<lambda>e. \<not> is_mprotect e) (fst (fail_out b msg))"
  by (simp add: fail_out_def)

lemma unprot_stores: "list_all (\<lambda>e. \<not> is_mprotect e) (map (\<lambda>k. Store (f k) (g k)) xs)"
  by (simp add: list_all_iff)

lemma protect_body:
  assumes "seq_trace (body_out os shared) = pre @ e # post" and "is_mprotect e"
  shows "list_all quiet post"
proof -
  define before where "before =
     [([Stdout banner1], None), ([Stdout (banner2 shared)], None),
      pmc_out (meminfo os 0) ''initial state'',
      ([Mmap length_sz {PROT_READ, PROT_WRITE}
          {MAP_ANONYMOUS, if shared \<noteq> 0 then MAP_SHARED else MAP_PRIVATE} (mmap_ret os)], None),
      fail_out (mmap_ret os = MAP_FAILED) ''mmap'',
      pmc_out (meminfo os 1) ''parent mem allocated'',
      (map (\<lambda>k. Store (mmap_ret os + int sizeof_int * int k) (int k)) [0..<nslots], None),
      pmc_out (meminfo os 2) ''parent mem initialized'']"
  define after where "after =
     [([Mprotect (mmap_ret os) length_sz {PROT_READ} (mprotect_ret os)], None),
      fail_out (mprotect_ret os = - 1) ''mprotect'',
      pmc_out (meminfo os 3) ''parent mem set-readonly'',
      fork_out (map (fork_ret os) [0..<NUM_CHLD]),
      pmc_out (meminfo os 4) ''parent forked children'',
      wait_out (map (wait_ret os) [0..<NUM_CHLD]),
      pmc_out (meminfo os 5) ''parent reaped children'',
      ([Munmap (mmap_ret os) length_sz (munmap_ret os)], None),
      pmc_out (meminfo os 6) ''parent mem unmapped'',
      ([Exit EXIT_SUCCESS], Some EXIT_SUCCESS)]"
  have b: "body_out os shared = before @ after"
    by (simp add: body_out_def before_def after_def)
  have 1: "list_all (\<lambda>e. \<not> is_mprotect e) (seq_trace before)"
    unfolding before_def
    by (rule list_all_seq_trace) (simp add: unprot_pmc unprot_fail unprot_stores)
  have "list_all quiet (seq_trace after)"
    unfolding after_def
    by (rule list_all_seq_trace) (simp add: quiet_pmc quiet_fail quiet_fork quiet_wait, simp add: quiet_def)
  then have 2: "list_all quiet (if seq_status before = None then seq_trace after else [])"
    by simp
  from assms(1) have "seq_trace before @ (if seq_status before = None then seq_trace after else [])
       = pre @ e # post"
    by (simp add: b seq_trace_append)
  from list_all_after [OF this 1 2] assms(2) show ?thesis by simp
qed

text \<open>What has to follow an event in a child: after \<open>fork\<close> returned 0, sleep and exit.\<close>

fun child :: "event \<Rightarrow> event list option" where
  "child (Fork r) = (if r = 0 then Some [Sleep 3, Exit EXIT_SUCCESS] else None)"
| "child e = None"

lemma child_fork: "seg_ok child (fork_out rs)"
  by (induction rs) (auto simp: fork_out_Nil fork_out_Cons seg_ok_def clean_def)

lemma child_wait: "seg_ok child (wait_out rs)"
  by (induction rs) (auto simp: wait_out_Nil wait_out_Cons seg_ok_def clean_def)

lemma child_pmc: "seg_ok child (pmc_out fp msg)"
  using clean_commit_out [of child msg]
  by (cases fp) (simp_all add: seg_ok_def pmc_out_def clean_def)

lemma child_fail: "seg_ok child (fail_out b msg)"
  by (simp add: seg_ok_def fail_out_def clean_def)

lemma child_body: "follows child (seq_trace (body_out os shared))"
  unfolding body_out_def
  by (intro follows_step child_pmc child_fork child_wait child_fail seg_ok_clean)
     (simp_all add: clean_def list_all_iff)

lemma child_main: "follows child (trace (main os argv))"
proof -
  consider "main os argv = usage argv world0"
    | shared where "main os argv = main_body os shared world0"
    using main_cases [of os argv] by blast
  then show ?thesis
  proof cases
    case 1
    then show ?thesis by (simp add: usage_def world0_def)
  next
    case 2
    then show ?thesis using child_body [of os shared] by (simp add: main_body_out)
  qed
qed

text \<open>
  Claim C9. In every run, no event after the call of \<open>mprotect\<close> is a store or an
  \<open>mmap\<close>: the parent never writes into the region again. In the process in which
  \<open>fork\<close> returned 0 (a child), the rest of the run is \<open>sleep(3)\<close> and
  \<open>exit(EXIT_SUCCESS)\<close>: it writes nothing and allocates nothing.
\<close>

theorem no_write_after_protect:
  "(trace (main os argv) = pre @ Mprotect addr len pr r # post
      \<longrightarrow> list_all (\<lambda>e. \<not> is_store e \<and> \<not> is_mmap e) post)
   \<and> (trace (main os argv) = pre' @ Fork 0 # post'
      \<longrightarrow> post' = [Sleep 3, Exit EXIT_SUCCESS])"
proof (intro conjI impI)
  assume a: "trace (main os argv) = pre @ Mprotect addr len pr r # post"
  consider "main os argv = usage argv world0"
    | shared where "main os argv = main_body os shared world0"
    using main_cases [of os argv] by blast
  then show "list_all (\<lambda>e. \<not> is_store e \<and> \<not> is_mmap e) post"
  proof cases
    case 1
    with a have "[Stderr (argv ! 0 @ '' [ --shared | --private ]\<newline>''), Exit EXIT_FAILURE]
                   = pre @ Mprotect addr len pr r # post"
      by (simp add: usage_def world0_def)
    then have "Mprotect addr len pr r
                 \<in> set [Stderr (argv ! 0 @ '' [ --shared | --private ]\<newline>''), Exit EXIT_FAILURE]"
      by (metis in_set_conv_decomp)
    then show ?thesis by simp
  next
    case 2
    with a have "seq_trace (body_out os shared) = pre @ Mprotect addr len pr r # post"
      by (simp add: main_body_out)
    from protect_body [OF this] show ?thesis by (simp add: quiet_def list_all_iff)
  qed
next
  assume a: "trace (main os argv) = pre' @ Fork 0 # post'"
  show "post' = [Sleep 3, Exit EXIT_SUCCESS]"
  proof (rule follows_split [OF child_main a])
    show "child (Fork 0) = Some [Sleep 3, Exit EXIT_SUCCESS]" by simp
  next
    fix e' k' assume "child e' = Some k'"
    then show "clean child k'" by (cases e') (auto simp: clean_def split: if_splits)
  qed
qed

theorem no_write_after_protect_witness:
  "trace (main os_ok [''./oom_alloc'', ''--shared'']) =
     ([Stdout ''Test dnsmasq OOM: memory allocation and forking\<newline>'',
       Stdout ''(allocate 64 MB shared anonymous, fork 16 processes)\<newline>'']
      @ sample_checkpoint ''initial state''
      @ [Mmap 67108864 {PROT_READ, PROT_WRITE} {MAP_ANONYMOUS, MAP_SHARED} 4096]
      @ sample_checkpoint ''parent mem allocated''
      @ map (\<lambda>k. Store (4096 + 4 * int k) (int k)) [0..<16777216]
      @ sample_checkpoint ''parent mem initialized'')
     @ Mprotect 4096 67108864 {PROT_READ} 0
     # (sample_checkpoint ''parent mem set-readonly''
        @ map (\<lambda>i. Fork (100 + int i)) [0..<16]
        @ sample_checkpoint ''parent forked children''
        @ map (\<lambda>i. Wait (115 - int i)) [0..<16]
        @ sample_checkpoint ''parent reaped children''
        @ [Munmap 4096 67108864 0]
        @ sample_checkpoint ''parent mem unmapped''
        @ [Exit 0])
   \<and> list_all (\<lambda>e. \<not> is_store e \<and> \<not> is_mmap e)
        (sample_checkpoint ''parent mem set-readonly''
         @ map (\<lambda>i. Fork (100 + int i)) [0..<16]
         @ sample_checkpoint ''parent forked children''
         @ map (\<lambda>i. Wait (115 - int i)) [0..<16]
         @ sample_checkpoint ''parent reaped children''
         @ [Munmap 4096 67108864 0]
         @ sample_checkpoint ''parent mem unmapped''
         @ [Exit 0])
   \<and> trace (main os_child [''./oom_alloc'', ''--shared'']) =
       ([Stdout ''Test dnsmasq OOM: memory allocation and forking\<newline>'',
         Stdout ''(allocate 64 MB shared anonymous, fork 16 processes)\<newline>'']
        @ sample_checkpoint ''initial state''
        @ [Mmap 67108864 {PROT_READ, PROT_WRITE} {MAP_ANONYMOUS, MAP_SHARED} 4096]
        @ sample_checkpoint ''parent mem allocated''
        @ map (\<lambda>k. Store (4096 + 4 * int k) (int k)) [0..<16777216]
        @ sample_checkpoint ''parent mem initialized''
        @ [Mprotect 4096 67108864 {PROT_READ} 0]
        @ sample_checkpoint ''parent mem set-readonly''
        @ [Fork 100, Fork 101])
       @ Fork 0 # [Sleep 3, Exit EXIT_SUCCESS]"
proof -
  let ?pre = "[Stdout ''Test dnsmasq OOM: memory allocation and forking\<newline>'',
       Stdout ''(allocate 64 MB shared anonymous, fork 16 processes)\<newline>'']
      @ sample_checkpoint ''initial state''
      @ [Mmap 67108864 {PROT_READ, PROT_WRITE} {MAP_ANONYMOUS, MAP_SHARED} 4096]
      @ sample_checkpoint ''parent mem allocated''
      @ map (\<lambda>k. Store (4096 + 4 * int k) (int k)) [0..<16777216]
      @ sample_checkpoint ''parent mem initialized''"
  let ?post = "sample_checkpoint ''parent mem set-readonly''
        @ map (\<lambda>i. Fork (100 + int i)) [0..<16]
        @ sample_checkpoint ''parent forked children''
        @ map (\<lambda>i. Wait (115 - int i)) [0..<16]
        @ sample_checkpoint ''parent reaped children''
        @ [Munmap 4096 67108864 0]
        @ sample_checkpoint ''parent mem unmapped''
        @ [Exit 0]"
  have p: "trace (main os_ok [''./oom_alloc'', ''--shared''])
             = ?pre @ Mprotect 4096 67108864 {PROT_READ} 0 # ?post"
    by (simp add: run_ok_shared del: upt_Suc)
  have c: "trace (main os_child [''./oom_alloc'', ''--shared'']) =
       (?pre @ [Mprotect 4096 67108864 {PROT_READ} 0]
        @ sample_checkpoint ''parent mem set-readonly'' @ [Fork 100, Fork 101])
       @ Fork 0 # [Sleep 3, Exit 0]"
    by (simp add: run_child del: upt_Suc)
  from no_write_after_protect [of os_ok "[''./oom_alloc'', ''--shared'']" ?pre 4096 67108864
         "{PROT_READ}" 0 ?post] p
  have "list_all (\<lambda>e. \<not> is_store e \<and> \<not> is_mmap e) ?post" by blast
  with p c show ?thesis by (simp add: EXIT_SUCCESS_def del: upt_Suc)
qed

section \<open>Fan-out, reap, release\<close>










section \<open>Release\<close>



section \<open>Failed resource requests\<close>

text \<open>What has to follow an event: after a failed request, \<open>handle_error\<close> and nothing else.\<close>

definition fatal :: "event \<Rightarrow> event list option" where
  "fatal e = map_option (\<lambda>msg. [Perror msg, Exit EXIT_FAILURE]) (acq_failure e)"

lemma fatal_simps [simp]:
  "fatal (Stdout s) = None" "fatal (Stderr s) = None" "fatal (Perror s) = None" "fatal Fclose = None"
  "fatal (Store p v) = None" "fatal (Sleep n) = None" "fatal (Munmap a l r) = None"
  "fatal (Exit c) = None"
  "fatal (Fopen path mode ok) = (if ok then None else Some [Perror ''file open'', Exit EXIT_FAILURE])"
  "fatal (Mmap len pr fl addr) = (if addr = MAP_FAILED then Some [Perror ''mmap'', Exit EXIT_FAILURE] else None)"
  "fatal (Mprotect addr len pr r) = (if r = - 1 then Some [Perror ''mprotect'', Exit EXIT_FAILURE] else None)"
  "fatal (Fork r) = (if r = - 1 then Some [Perror ''fork'', Exit EXIT_FAILURE] else None)"
  "fatal (Wait r) = (if r = - 1 then Some [Perror ''wait'', Exit EXIT_FAILURE] else None)"
  by (simp_all add: fatal_def)

lemma fatal_step_checked:
  "fatal e = (if failed then Some [Perror msg, Exit EXIT_FAILURE] else None) \<Longrightarrow>
   follows fatal (seq_trace r) \<Longrightarrow>
   follows fatal (seq_trace (([e], None) # fail_out failed msg # r))"
  by (simp add: fail_out_def)

lemma fatal_pmc: "seg_ok fatal (pmc_out fp msg)"
  using clean_commit_out [of fatal msg]
  by (cases fp) (simp_all add: seg_ok_def pmc_out_def clean_def)

lemma fatal_fork: "seg_ok fatal (fork_out rs)"
  by (induction rs) (auto simp: fork_out_Nil fork_out_Cons seg_ok_def clean_def)

lemma fatal_wait: "seg_ok fatal (wait_out rs)"
  by (induction rs) (auto simp: wait_out_Nil wait_out_Cons seg_ok_def clean_def)

lemma fatal_body: "follows fatal (seq_trace (body_out os shared))"
  unfolding body_out_def
  by (intro follows_step fatal_step_checked fatal_pmc fatal_fork fatal_wait seg_ok_clean)
     (simp_all add: clean_def list_all_iff)

lemma fatal_main: "follows fatal (trace (main os argv))"
proof -
  consider "main os argv = usage argv world0"
    | shared where "main os argv = main_body os shared world0"
    using main_cases [of os argv] by blast
  then show ?thesis
  proof cases
    case 1
    then show ?thesis by (simp add: usage_def world0_def)
  next
    case 2
    then show ?thesis using fatal_body [of os shared] by (simp add: main_body_out)
  qed
qed

text \<open>
  Claim C6. In every run, whatever the arguments and the answers of the operating system,
  a failed resource request (an \<open>fopen\<close> returning a null pointer, \<open>mmap\<close> returning
  \<open>MAP_FAILED\<close>, \<open>mprotect\<close>, \<open>fork\<close> or \<open>wait\<close> returning \<open>-1\<close>) is followed by
  exactly two more calls: \<open>perror\<close> with the name of the request and
  \<open>exit(EXIT_FAILURE)\<close>. Nothing is retried, nothing is released, and the exit status
  is non-zero.
\<close>

theorem resource_failure_is_fatal:
  assumes "trace (main os argv) = pre @ e # post" and "acq_failure e = Some msg"
  shows "post = [Perror msg, Exit EXIT_FAILURE]
       \<and> status (main os argv) = Some EXIT_FAILURE \<and> EXIT_FAILURE \<noteq> 0"
proof -
  have "post = [Perror msg, Exit EXIT_FAILURE]"
  proof (rule follows_split [OF fatal_main assms(1)])
    show "fatal e = Some [Perror msg, Exit EXIT_FAILURE]"
      using assms(2) by (simp add: fatal_def)
  next
    fix e' k' assume "fatal e' = Some k'"
    then show "clean fatal k'" by (auto simp: fatal_def clean_def)
  qed
  then have p: "post = [Perror msg, Exit EXIT_FAILURE]" .
  from main_exits [of os argv] obtain c where
    c: "status (main os argv) = Some c" "last (trace (main os argv)) = Exit c" by blast
  from c(2) assms(1) p have "c = EXIT_FAILURE" by simp
  with c(1) p show ?thesis by (simp add: EXIT_FAILURE_def)
qed

theorem resource_failure_is_fatal_witness:
  "trace (main os_mmap_fails [''./oom_alloc'', ''--private'']) =
     [Stdout ''Test dnsmasq OOM: memory allocation and forking\<newline>'',
      Stdout ''(allocate 64 MB private anonymous, fork 16 processes)\<newline>'',
      Fopen ''/proc/meminfo'' ''r'' True,
      Stdout ''Committed_AS:      41236 kB    (initial state)\<newline>'',
      Fclose]
     @ Mmap 67108864 {PROT_READ, PROT_WRITE} {MAP_ANONYMOUS, MAP_PRIVATE} (- 1)
     # [Perror ''mmap'', Exit 1]
   \<and> acq_failure (Mmap 67108864 {PROT_READ, PROT_WRITE} {MAP_ANONYMOUS, MAP_PRIVATE} (- 1))
       = Some ''mmap''
   \<and> status (main os_mmap_fails [''./oom_alloc'', ''--private'']) = Some 1
   \<and> trace (main os_fopen_fails [''./oom_alloc'', ''--shared'']) =
     [Stdout ''Test dnsmasq OOM: memory allocation and forking\<newline>'',
      Stdout ''(allocate 64 MB shared anonymous, fork 16 processes)\<newline>'']
     @ Fopen ''/proc/meminfo'' ''r'' False # [Perror ''file open'', Exit 1]
   \<and> status (main os_fopen_fails [''./oom_alloc'', ''--shared'']) = Some 1"
proof -
  have m: "trace (main os_mmap_fails [''./oom_alloc'', ''--private'']) =
     [Stdout ''Test dnsmasq OOM: memory allocation and forking\<newline>'',
      Stdout ''(allocate 64 MB private anonymous, fork 16 processes)\<newline>'',
      Fopen ''/proc/meminfo'' ''r'' True,
      Stdout ''Committed_AS:      41236 kB    (initial state)\<newline>'',
      Fclose]
     @ Mmap 67108864 {PROT_READ, PROT_WRITE} {MAP_ANONYMOUS, MAP_PRIVATE} (- 1)
     # [Perror ''mmap'', Exit 1]"
    by (simp add: run_mmap_fails)
  have ma: "acq_failure (Mmap 67108864 {PROT_READ, PROT_WRITE} {MAP_ANONYMOUS, MAP_PRIVATE} (- 1))
       = Some ''mmap''"
    by (simp add: MAP_FAILED_def)
  have f: "trace (main os_fopen_fails [''./oom_alloc'', ''--shared'']) =
     [Stdout ''Test dnsmasq OOM: memory allocation and forking\<newline>'',
      Stdout ''(allocate 64 MB shared anonymous, fork 16 processes)\<newline>'']
     @ Fopen ''/proc/meminfo'' ''r'' False # [Perror ''file open'', Exit 1]"
    by (simp add: run_fopen_fails)
  have fa: "acq_failure (Fopen ''/proc/meminfo'' ''r'' False) = Some ''file open''"
    by simp
  from resource_failure_is_fatal [OF m ma] resource_failure_is_fatal [OF f fa] m ma f
  show ?thesis by (simp add: EXIT_FAILURE_def)
qed

section \<open>The memory-commit reporter\<close>

text \<open>
  Claim C7 (amended). For every label and every accounting source that is a text (no NUL
  byte, every line shorter than the 100 bytes of \<open>buf\<close>), the reporter opens the source,
  prints for each line that starts with \<open>Committed_AS:\<close>, in the order of the lines, that
  line without its newline, four spaces and the label in parentheses, and closes the
  source: one output line per metric line, so exactly one when the metric is present once.
\<close>

theorem reporter_prints_metric_lines:
  assumes "text_ok content"
  shows "print_mem_commit (Some content) msg w =
           w\<lparr>trace := trace w
                 @ Fopen ''/proc/meminfo'' ''r'' True
                 # map (\<lambda>l. Stdout (l @ ''    ('' @ msg @ '')\<newline>'')) (metric_lines content)
                 @ [Fclose]\<rparr>"
  using assms commit_out_lines [of content msg]
  by (simp add: pmc_Some text_ok_def metric_lines_def)

theorem reporter_prints_metric_lines_witness:
  "text_ok meminfo_sample
   \<and> print_mem_commit (Some meminfo_sample) ''initial state'' world0 =
       world0\<lparr>trace := [Fopen ''/proc/meminfo'' ''r'' True,
                         Stdout ''Committed_AS:      41236 kB    (initial state)\<newline>'',
                         Fclose]\<rparr>"
proof -
  have t: "text_ok meminfo_sample"
    by (simp add: text_ok_def sample_lines) (simp add: meminfo_sample_def)
  from reporter_prints_metric_lines [OF t, of "''initial state''" world0] t
  show ?thesis by (simp add: metric_lines_def sample_lines memstr_def world0_def)
qed

definition two_metric_lines :: string where
  "two_metric_lines = ''Committed_AS: 1 kB\<newline>Committed_AS: 2 kB\<newline>''"

definition long_metric_line :: string where
  "long_metric_line =
     ''Committed_AS:'' @ replicate 90 CHR ''9'' @ '' kB\<newline>''"

definition nul_metric_line :: string where
  "nul_metric_line = ''Committed_AS: 1'' @ [CHR 0x00] @ ''2 kB\<newline>''"

text \<open>
  Claim C7 as stated fails on three contents: with two metric lines the reporter prints two
  lines; of a metric line of 106 bytes it prints the first 99 bytes only; of a metric line
  holding a NUL byte it prints the bytes before the NUL.
\<close>

theorem reporter_not_one_verbatim_line:
  "metric_lines two_metric_lines = [''Committed_AS: 1 kB'', ''Committed_AS: 2 kB'']
   \<and> trace (print_mem_commit (Some two_metric_lines) ''initial state'' world0) =
       [Fopen ''/proc/meminfo'' ''r'' True,
        Stdout ''Committed_AS: 1 kB    (initial state)\<newline>'',
        Stdout ''Committed_AS: 2 kB    (initial state)\<newline>'',
        Fclose]
   \<and> metric_lines long_metric_line = [''Committed_AS:'' @ replicate 90 CHR ''9'' @ '' kB'']
   \<and> trace (print_mem_commit (Some long_metric_line) ''initial state'' world0) =
       [Fopen ''/proc/meminfo'' ''r'' True,
        Stdout (''Committed_AS:'' @ replicate 86 CHR ''9'' @ ''    (initial state)\<newline>''),
        Fclose]
   \<and> metric_lines nul_metric_line = [''Committed_AS: 1'' @ [CHR 0x00] @ ''2 kB'']
   \<and> trace (print_mem_commit (Some nul_metric_line) ''initial state'' world0) =
       [Fopen ''/proc/meminfo'' ''r'' True,
        Stdout ''Committed_AS: 1    (initial state)\<newline>'',
        Fclose]"
proof -
  have 1: "metric_lines two_metric_lines = [''Committed_AS: 1 kB'', ''Committed_AS: 2 kB'']"
    by code_simp
  have 2: "trace (print_mem_commit (Some two_metric_lines) ''initial state'' world0) =
       [Fopen ''/proc/meminfo'' ''r'' True,
        Stdout ''Committed_AS: 1 kB    (initial state)\<newline>'',
        Stdout ''Committed_AS: 2 kB    (initial state)\<newline>'',
        Fclose]"
    by code_simp
  have 3: "metric_lines long_metric_line = [''Committed_AS:'' @ replicate 90 CHR ''9'' @ '' kB'']"
    by code_simp
  have 4: "trace (print_mem_commit (Some long_metric_line) ''initial state'' world0) =
       [Fopen ''/proc/meminfo'' ''r'' True,
        Stdout (''Committed_AS:'' @ replicate 86 CHR ''9'' @ ''    (initial state)\<newline>''),
        Fclose]"
    by code_simp
  have 5: "metric_lines nul_metric_line = [''Committed_AS: 1'' @ [CHR 0x00] @ ''2 kB'']"
    by code_simp
  have 6: "trace (print_mem_commit (Some nul_metric_line) ''initial state'' world0) =
       [Fopen ''/proc/meminfo'' ''r'' True,
        Stdout ''Committed_AS: 1    (initial state)\<newline>'',
        Fclose]"
    by code_simp
  from 1 2 3 4 5 6 show ?thesis by blast
qed

text \<open>
  Claim C8 (amended). When every line of the accounting source is shorter than the buffer
  and no line starts with the metric name, the reporter call makes two calls only, the
  \<open>fopen\<close> and the \<open>fclose\<close>: it prints nothing and returns with the process still
  running. For every content at all, the call's events are the \<open>fopen\<close>, then lines
  written to the standard output, then the \<open>fclose\<close>, and the call returns.
\<close>

theorem reporter_silent_without_metric:
  assumes "list_all (\<lambda>l. length l < 100) (lines_of content)" and "metric_lines content = []"
  shows "print_mem_commit (Some content) msg w =
           w\<lparr>trace := trace w @ [Fopen ''/proc/meminfo'' ''r'' True, Fclose]\<rparr>
       \<and> (\<forall>any. \<exists>outs.
             print_mem_commit (Some any) msg w =
               w\<lparr>trace := trace w @ Fopen ''/proc/meminfo'' ''r'' True # map Stdout outs @ [Fclose]\<rparr>)"
proof
  from assms commit_out_no_metric [of content msg]
  show "print_mem_commit (Some content) msg w =
           w\<lparr>trace := trace w @ [Fopen ''/proc/meminfo'' ''r'' True, Fclose]\<rparr>"
    by (simp add: pmc_Some metric_lines_def)
next
  show "\<forall>any. \<exists>outs.
             print_mem_commit (Some any) msg w =
               w\<lparr>trace := trace w @ Fopen ''/proc/meminfo'' ''r'' True # map Stdout outs @ [Fclose]\<rparr>"
  proof
    fix any
    have "commit_out msg any = map Stdout (map (commit_line msg) (filter matches (fgets_all any)))"
      by (simp add: commit_out_def)
    then show "\<exists>outs.
             print_mem_commit (Some any) msg w =
               w\<lparr>trace := trace w @ Fopen ''/proc/meminfo'' ''r'' True # map Stdout outs @ [Fclose]\<rparr>"
      unfolding pmc_Some by (metis (no_types))
  qed
qed

definition no_metric_sample :: string where
  "no_metric_sample = ''MemTotal:         124388 kB\<newline>MemFree:           61044 kB\<newline>''"

theorem reporter_silent_without_metric_witness:
  "list_all (\<lambda>l. length l < 100) (lines_of no_metric_sample)
   \<and> metric_lines no_metric_sample = []
   \<and> print_mem_commit (Some no_metric_sample) ''initial state'' world0 =
       world0\<lparr>trace := [Fopen ''/proc/meminfo'' ''r'' True, Fclose]\<rparr>"
proof -
  have l: "lines_of no_metric_sample = [''MemTotal:         124388 kB'', ''MemFree:           61044 kB'']"
    by (simp add: no_metric_sample_def)
  have a: "list_all (\<lambda>l. length l < 100) (lines_of no_metric_sample)"
    by (simp add: l)
  have b: "metric_lines no_metric_sample = []"
    by (simp add: metric_lines_def l memstr_def)
  from reporter_silent_without_metric [OF a b, of "''initial state''" world0] a b
  show ?thesis by (simp add: world0_def)
qed

definition metric_in_long_line :: string where
  "metric_in_long_line = replicate 99 CHR ''x'' @ ''Committed_AS: 7 kB\<newline>''"

text \<open>
  Claim C8 as stated fails: a single line of 118 bytes that does not start with the metric
  name is read in two pieces, the second piece starts with the metric name, and the
  reporter prints it.
\<close>

theorem reporter_prints_inside_long_line:
  "lines_of metric_in_long_line = [replicate 99 CHR ''x'' @ ''Committed_AS: 7 kB'']
   \<and> metric_lines metric_in_long_line = []
   \<and> trace (print_mem_commit (Some metric_in_long_line) ''initial state'' world0) =
       [Fopen ''/proc/meminfo'' ''r'' True,
        Stdout ''Committed_AS: 7 kB    (initial state)\<newline>'',
        Fclose]"
proof -
  have 1: "lines_of metric_in_long_line = [replicate 99 CHR ''x'' @ ''Committed_AS: 7 kB'']"
    by code_simp
  have 2: "metric_lines metric_in_long_line = []"
    by code_simp
  have 3: "trace (print_mem_commit (Some metric_in_long_line) ''initial state'' world0) =
       [Fopen ''/proc/meminfo'' ''r'' True,
        Stdout ''Committed_AS: 7 kB    (initial state)\<newline>'',
        Fclose]"
    by code_simp
  from 1 2 3 show ?thesis by blast
qed

section \<open>The output of a successful run\<close>

lemma stdout_of_append: "stdout_of (xs @ ys) = stdout_of xs @ stdout_of ys"
  by (induction xs rule: stdout_of.induct) simp_all

lemma stdout_of_Stdout: "stdout_of (map (\<lambda>l. Stdout (f l)) xs) = map f xs"
  by (induction xs) simp_all

lemma stdout_of_Store: "stdout_of (map (\<lambda>k. Store (f k) (g k)) xs) = []"
  by (induction xs) simp_all

lemma stdout_of_Fork: "stdout_of (map (\<lambda>k. Fork (f k)) xs) = []"
  by (induction xs) simp_all

lemma stdout_of_Wait: "stdout_of (map (\<lambda>k. Wait (f k)) xs) = []"
  by (induction xs) simp_all

text \<open>
  What the reporter is to print at a checkpoint, by the lines of the reading: one line for
  each metric line, none when the metric is absent.
\<close>

definition checkpoint_lines :: "string option \<Rightarrow> string \<Rightarrow> string list" where
  "checkpoint_lines fp msg =
     (case fp of
        None \<Rightarrow> []
      | Some content \<Rightarrow> map (\<lambda>l. l @ ''    ('' @ msg @ '')\<newline>'') (metric_lines content))"

text \<open>The reading is a text; the reading is a text with exactly one metric line.\<close>

definition reading_text :: "string option \<Rightarrow> bool" where
  "reading_text fp = (case fp of None \<Rightarrow> False | Some content \<Rightarrow> text_ok content)"

definition reading_ok :: "string option \<Rightarrow> bool" where
  "reading_ok fp =
     (case fp of None \<Rightarrow> False | Some content \<Rightarrow> text_ok content \<and> length (metric_lines content) = 1)"

lemma stdout_of_pmc_text:
  assumes "reading_text fp"
  shows "stdout_of (fst (pmc_out fp msg)) = checkpoint_lines fp msg"
proof -
  from assms obtain content where c: "fp = Some content" "text_ok content"
    by (auto simp: reading_text_def split: option.splits)
  from c(2) have "commit_out msg content
      = map (\<lambda>l. Stdout (l @ ''    ('' @ msg @ '')\<newline>'')) (metric_lines content)"
    using commit_out_lines [of content msg] by (simp add: text_ok_def metric_lines_def)
  with c(1) show ?thesis
    by (simp add: pmc_out_def checkpoint_lines_def stdout_of_append stdout_of_Stdout)
qed

lemma reading_ok_lines: "reading_ok fp \<Longrightarrow> reading_text fp \<and> length (checkpoint_lines fp msg) = 1"
  by (auto simp: reading_ok_def reading_text_def checkpoint_lines_def split: option.splits)

lemma stdout_all_ok:
  assumes "all_ok os"
  shows "stdout_of (trace (main_body os shared world0)) =
           [banner1, banner2 shared]
           @ stdout_of (fst (pmc_out (meminfo os 0) ''initial state''))
           @ stdout_of (fst (pmc_out (meminfo os 1) ''parent mem allocated''))
           @ stdout_of (fst (pmc_out (meminfo os 2) ''parent mem initialized''))
           @ stdout_of (fst (pmc_out (meminfo os 3) ''parent mem set-readonly''))
           @ stdout_of (fst (pmc_out (meminfo os 4) ''parent forked children''))
           @ stdout_of (fst (pmc_out (meminfo os 5) ''parent reaped children''))
           @ stdout_of (fst (pmc_out (meminfo os 6) ''parent mem unmapped''))"
  by (simp add: all_ok_trace [OF assms] stdout_of_append stdout_of_Store
        stdout_of_Fork stdout_of_Wait comp_def del: One_nat_def)

text \<open>
  Claim C1 (amended). When the argument is \<open>--shared\<close> or \<open>--private\<close> and every resource
  request of the parent succeeds, the writes of the parent to the standard output are the
  two banner lines (64 MB, the mode word of the argument, 16 processes), once, followed by
  what the reporter prints at the seven checkpoints, in the order of the checkpoints, and
  the exit status is 0. When the seven readings of the accounting source are texts, the
  reporter prints at each checkpoint one line for each metric line of the reading: none
  where the metric is absent, and nine lines in all, the banner and exactly seven
  memory-commit lines, when every reading has exactly one metric line.
\<close>

theorem successful_run_output:
  assumes "all_ok os" and "arg = ''--shared'' \<or> arg = ''--private''"
  shows "stdout_of (trace (main os [prog, arg])) =
           [''Test dnsmasq OOM: memory allocation and forking\<newline>'',
            ''(allocate 64 MB '' @ (if arg = ''--shared'' then ''shared'' else ''private'')
              @ '' anonymous, fork 16 processes)\<newline>'']
           @ stdout_of (trace (print_mem_commit (meminfo os 0) ''initial state'' world0))
           @ stdout_of (trace (print_mem_commit (meminfo os 1) ''parent mem allocated'' world0))
           @ stdout_of (trace (print_mem_commit (meminfo os 2) ''parent mem initialized'' world0))
           @ stdout_of (trace (print_mem_commit (meminfo os 3) ''parent mem set-readonly'' world0))
           @ stdout_of (trace (print_mem_commit (meminfo os 4) ''parent forked children'' world0))
           @ stdout_of (trace (print_mem_commit (meminfo os 5) ''parent reaped children'' world0))
           @ stdout_of (trace (print_mem_commit (meminfo os 6) ''parent mem unmapped'' world0))
       \<and> status (main os [prog, arg]) = Some EXIT_SUCCESS \<and> EXIT_SUCCESS = 0
       \<and> (list_all (\<lambda>k. reading_text (meminfo os k)) [0..<7] \<longrightarrow>
            stdout_of (trace (main os [prog, arg])) =
              [''Test dnsmasq OOM: memory allocation and forking\<newline>'',
               ''(allocate 64 MB '' @ (if arg = ''--shared'' then ''shared'' else ''private'')
                 @ '' anonymous, fork 16 processes)\<newline>'']
              @ checkpoint_lines (meminfo os 0) ''initial state''
              @ checkpoint_lines (meminfo os 1) ''parent mem allocated''
              @ checkpoint_lines (meminfo os 2) ''parent mem initialized''
              @ checkpoint_lines (meminfo os 3) ''parent mem set-readonly''
              @ checkpoint_lines (meminfo os 4) ''parent forked children''
              @ checkpoint_lines (meminfo os 5) ''parent reaped children''
              @ checkpoint_lines (meminfo os 6) ''parent mem unmapped'')
       \<and> (list_all (\<lambda>k. reading_ok (meminfo os k)) [0..<7] \<longrightarrow>
            length (stdout_of (trace (main os [prog, arg]))) = 2 + 7)"
proof -
  have b: "banner2 (if arg = ''--shared'' then 1 else 0)
      = ''(allocate 64 MB '' @ (if arg = ''--shared'' then ''shared'' else ''private'')
              @ '' anonymous, fork 16 processes)\<newline>''"
    by (simp add: banner2_shared banner2_private)
  from assms(2) have m: "main os [prog, arg] = main_body os (if arg = ''--shared'' then 1 else 0) world0"
    by (auto simp: main_def)
  have 1: "stdout_of (trace (main os [prog, arg])) =
           [''Test dnsmasq OOM: memory allocation and forking\<newline>'',
            ''(allocate 64 MB '' @ (if arg = ''--shared'' then ''shared'' else ''private'')
              @ '' anonymous, fork 16 processes)\<newline>'']
           @ stdout_of (fst (pmc_out (meminfo os 0) ''initial state''))
           @ stdout_of (fst (pmc_out (meminfo os 1) ''parent mem allocated''))
           @ stdout_of (fst (pmc_out (meminfo os 2) ''parent mem initialized''))
           @ stdout_of (fst (pmc_out (meminfo os 3) ''parent mem set-readonly''))
           @ stdout_of (fst (pmc_out (meminfo os 4) ''parent forked children''))
           @ stdout_of (fst (pmc_out (meminfo os 5) ''parent reaped children''))
           @ stdout_of (fst (pmc_out (meminfo os 6) ''parent mem unmapped''))"
    unfolding m stdout_all_ok [OF assms(1)] by (simp add: b banner1_def)
  have 2: "status (main os [prog, arg]) = Some EXIT_SUCCESS"
    unfolding m using all_ok_trace [OF assms(1)] by simp
  have 3: "stdout_of (trace (main os [prog, arg])) =
              [''Test dnsmasq OOM: memory allocation and forking\<newline>'',
               ''(allocate 64 MB '' @ (if arg = ''--shared'' then ''shared'' else ''private'')
                 @ '' anonymous, fork 16 processes)\<newline>'']
              @ checkpoint_lines (meminfo os 0) ''initial state''
              @ checkpoint_lines (meminfo os 1) ''parent mem allocated''
              @ checkpoint_lines (meminfo os 2) ''parent mem initialized''
              @ checkpoint_lines (meminfo os 3) ''parent mem set-readonly''
              @ checkpoint_lines (meminfo os 4) ''parent forked children''
              @ checkpoint_lines (meminfo os 5) ''parent reaped children''
              @ checkpoint_lines (meminfo os 6) ''parent mem unmapped''"
    if t: "list_all (\<lambda>k. reading_text (meminfo os k)) [0..<7]"
  proof -
    from t have r: "reading_text (meminfo os k)" if "k < 7" for k
      using that by (simp add: list_all_iff)
    have p: "stdout_of (fst (pmc_out (meminfo os k) msg)) = checkpoint_lines (meminfo os k) msg"
      if "k < 7" for k msg
      by (rule stdout_of_pmc_text [OF r [OF that]])
    show ?thesis unfolding 1 by (simp add: p del: One_nat_def)
  qed
  have 4: "length (stdout_of (trace (main os [prog, arg]))) = 2 + 7"
    if o: "list_all (\<lambda>k. reading_ok (meminfo os k)) [0..<7]"
  proof -
    from o have r: "reading_text (meminfo os k) \<and> length (checkpoint_lines (meminfo os k) msg) = 1"
      if "k < 7" for k msg
      using that reading_ok_lines [of "meminfo os k" msg] by (simp add: list_all_iff)
    then have "list_all (\<lambda>k. reading_text (meminfo os k)) [0..<7]"
      by (simp add: list_all_iff)
    from 3 [OF this] r show ?thesis by (simp del: One_nat_def)
  qed
  from 1 2 3 4 show ?thesis
    by (simp only: trace_pmc_world0 EXIT_SUCCESS_def) simp
qed


lemma text_ok_sample: "text_ok meminfo_sample"
  by (simp add: text_ok_def sample_lines) (simp add: meminfo_sample_def)

lemma metric_lines_sample: "metric_lines meminfo_sample = [''Committed_AS:      41236 kB'']"
  by (simp add: metric_lines_def sample_lines memstr_def)

lemma lines_of_no_metric_sample:
  "lines_of no_metric_sample = [''MemTotal:         124388 kB'', ''MemFree:           61044 kB'']"
  by (simp add: no_metric_sample_def)

lemma text_ok_no_metric_sample: "text_ok no_metric_sample"
  by (simp add: text_ok_def lines_of_no_metric_sample) (simp add: no_metric_sample_def)

lemma metric_lines_no_metric_sample: "metric_lines no_metric_sample = []"
  by (simp add: metric_lines_def lines_of_no_metric_sample memstr_def)

text \<open>Every request succeeds; the third reading of the accounting source lacks the metric.\<close>

definition os_third_silent :: os where
  "os_third_silent =
     os_ok\<lparr>meminfo := (\<lambda>k. if k = 2 then Some no_metric_sample else Some meminfo_sample)\<rparr>"

lemma all_ok_third_silent: "all_ok os_third_silent"
  using all_ok_os_ok by (simp add: all_ok_def os_third_silent_def list_all_iff)

theorem successful_run_output_witness:
  "stdout_of (trace (main os_ok [''./oom_alloc'', ''--private''])) =
     [''Test dnsmasq OOM: memory allocation and forking\<newline>'',
      ''(allocate 64 MB private anonymous, fork 16 processes)\<newline>'',
      ''Committed_AS:      41236 kB    (initial state)\<newline>'',
      ''Committed_AS:      41236 kB    (parent mem allocated)\<newline>'',
      ''Committed_AS:      41236 kB    (parent mem initialized)\<newline>'',
      ''Committed_AS:      41236 kB    (parent mem set-readonly)\<newline>'',
      ''Committed_AS:      41236 kB    (parent forked children)\<newline>'',
      ''Committed_AS:      41236 kB    (parent reaped children)\<newline>'',
      ''Committed_AS:      41236 kB    (parent mem unmapped)\<newline>'']
   \<and> status (main os_ok [''./oom_alloc'', ''--private'']) = Some 0
   \<and> stdout_of (trace (main os_third_silent [''./oom_alloc'', ''--shared''])) =
     [''Test dnsmasq OOM: memory allocation and forking\<newline>'',
      ''(allocate 64 MB shared anonymous, fork 16 processes)\<newline>'',
      ''Committed_AS:      41236 kB    (initial state)\<newline>'',
      ''Committed_AS:      41236 kB    (parent mem allocated)\<newline>'',
      ''Committed_AS:      41236 kB    (parent mem set-readonly)\<newline>'',
      ''Committed_AS:      41236 kB    (parent forked children)\<newline>'',
      ''Committed_AS:      41236 kB    (parent reaped children)\<newline>'',
      ''Committed_AS:      41236 kB    (parent mem unmapped)\<newline>'']
   \<and> status (main os_third_silent [''./oom_alloc'', ''--shared'']) = Some 0"
proof -
  have m: "meminfo os_ok k = Some meminfo_sample" for k
    by (simp add: os_ok_def)
  have r: "list_all (\<lambda>k. reading_text (meminfo os_ok k)) [0..<7]"
    by (simp add: m reading_text_def text_ok_sample list_all_iff)
  have n: "meminfo os_third_silent k = (if k = 2 then Some no_metric_sample else Some meminfo_sample)"
    for k
    by (simp add: os_third_silent_def)
  have t: "list_all (\<lambda>k. reading_text (meminfo os_third_silent k)) [0..<7]"
    by (simp add: n reading_text_def text_ok_sample text_ok_no_metric_sample list_all_iff)
  have v: "''--private'' = ''--shared'' \<or> ''--private'' = ''--private''"
    "''--shared'' = ''--shared'' \<or> ''--shared'' = ''--private''"
    by simp_all
  note a = successful_run_output [OF all_ok_os_ok v(1), where prog = "''./oom_alloc''"]
  note b = successful_run_output [OF all_ok_third_silent v(2), where prog = "''./oom_alloc''"]
  from a [THEN conjunct2, THEN conjunct2, THEN conjunct2, THEN conjunct1, THEN mp, OF r]
  have 1: "stdout_of (trace (main os_ok [''./oom_alloc'', ''--private''])) =
     [''Test dnsmasq OOM: memory allocation and forking\<newline>'',
      ''(allocate 64 MB private anonymous, fork 16 processes)\<newline>'',
      ''Committed_AS:      41236 kB    (initial state)\<newline>'',
      ''Committed_AS:      41236 kB    (parent mem allocated)\<newline>'',
      ''Committed_AS:      41236 kB    (parent mem initialized)\<newline>'',
      ''Committed_AS:      41236 kB    (parent mem set-readonly)\<newline>'',
      ''Committed_AS:      41236 kB    (parent forked children)\<newline>'',
      ''Committed_AS:      41236 kB    (parent reaped children)\<newline>'',
      ''Committed_AS:      41236 kB    (parent mem unmapped)\<newline>'']"
    by (simp add: m checkpoint_lines_def metric_lines_sample)
  from a [THEN conjunct2, THEN conjunct1]
  have 2: "status (main os_ok [''./oom_alloc'', ''--private'']) = Some 0"
    by (simp add: EXIT_SUCCESS_def)
  from b [THEN conjunct2, THEN conjunct2, THEN conjunct2, THEN conjunct1, THEN mp, OF t]
  have 3: "stdout_of (trace (main os_third_silent [''./oom_alloc'', ''--shared''])) =
     [''Test dnsmasq OOM: memory allocation and forking\<newline>'',
      ''(allocate 64 MB shared anonymous, fork 16 processes)\<newline>'',
      ''Committed_AS:      41236 kB    (initial state)\<newline>'',
      ''Committed_AS:      41236 kB    (parent mem allocated)\<newline>'',
      ''Committed_AS:      41236 kB    (parent mem set-readonly)\<newline>'',
      ''Committed_AS:      41236 kB    (parent forked children)\<newline>'',
      ''Committed_AS:      41236 kB    (parent reaped children)\<newline>'',
      ''Committed_AS:      41236 kB    (parent mem unmapped)\<newline>'']"
    by (simp add: n checkpoint_lines_def metric_lines_sample metric_lines_no_metric_sample)
  from b [THEN conjunct2, THEN conjunct1]
  have 4: "status (main os_third_silent [''./oom_alloc'', ''--shared'']) = Some 0"
    by (simp add: EXIT_SUCCESS_def)
  from 1 2 3 4 show ?thesis by blast
qed

text \<open>Every request succeeds; every reading of the accounting source has two metric lines.\<close>

definition os_twice :: os where
  "os_twice = os_ok\<lparr>meminfo := (\<lambda>k. Some two_metric_lines)\<rparr>"

lemma all_ok_twice: "all_ok os_twice"
  using all_ok_os_ok by (simp add: all_ok_def os_twice_def list_all_iff)

lemma lines_of_two_metric_lines:
  "lines_of two_metric_lines = [''Committed_AS: 1 kB'', ''Committed_AS: 2 kB'']"
  by (simp add: two_metric_lines_def)

lemma stdout_of_pmc_twice:
  "stdout_of (fst (pmc_out (Some two_metric_lines) msg)) =
     [''Committed_AS: 1 kB    ('' @ msg @ '')\<newline>'', ''Committed_AS: 2 kB    ('' @ msg @ '')\<newline>'']"
proof -
  have "text_ok two_metric_lines"
    by (simp add: text_ok_def lines_of_two_metric_lines) (simp add: two_metric_lines_def)
  then have "reading_text (Some two_metric_lines)" by (simp add: reading_text_def)
  from stdout_of_pmc_text [OF this, of msg] show ?thesis
    by (simp add: checkpoint_lines_def metric_lines_def lines_of_two_metric_lines memstr_def)
qed

text \<open>
  Claim C1 as stated fails: in the run in which every request succeeds and the metric is
  present once at every checkpoint, the banner is followed by seven memory-commit lines,
  not eight; a run with a valid argument in which \<open>mmap\<close> fails prints one memory-commit
  line and exits with status 1; and in a successful run in which every reading has two
  metric lines the reporter prints two lines at every checkpoint, fourteen in all.
\<close>

theorem seven_checkpoints_not_eight:
  "stdout_of (trace (main os_ok [''./oom_alloc'', ''--shared''])) =
     [''Test dnsmasq OOM: memory allocation and forking\<newline>'',
      ''(allocate 64 MB shared anonymous, fork 16 processes)\<newline>'',
      ''Committed_AS:      41236 kB    (initial state)\<newline>'',
      ''Committed_AS:      41236 kB    (parent mem allocated)\<newline>'',
      ''Committed_AS:      41236 kB    (parent mem initialized)\<newline>'',
      ''Committed_AS:      41236 kB    (parent mem set-readonly)\<newline>'',
      ''Committed_AS:      41236 kB    (parent forked children)\<newline>'',
      ''Committed_AS:      41236 kB    (parent reaped children)\<newline>'',
      ''Committed_AS:      41236 kB    (parent mem unmapped)\<newline>'']
   \<and> length (filter (prefix memstr) (stdout_of (trace (main os_ok [''./oom_alloc'', ''--shared''])))) = 7
   \<and> status (main os_ok [''./oom_alloc'', ''--shared'']) = Some 0
   \<and> stdout_of (trace (main os_mmap_fails [''./oom_alloc'', ''--private''])) =
     [''Test dnsmasq OOM: memory allocation and forking\<newline>'',
      ''(allocate 64 MB private anonymous, fork 16 processes)\<newline>'',
      ''Committed_AS:      41236 kB    (initial state)\<newline>'']
   \<and> status (main os_mmap_fails [''./oom_alloc'', ''--private'']) = Some 1
   \<and> stdout_of (trace (main os_twice [''./oom_alloc'', ''--shared''])) =
     [''Test dnsmasq OOM: memory allocation and forking\<newline>'',
      ''(allocate 64 MB shared anonymous, fork 16 processes)\<newline>'',
      ''Committed_AS: 1 kB    (initial state)\<newline>'',
      ''Committed_AS: 2 kB    (initial state)\<newline>'',
      ''Committed_AS: 1 kB    (parent mem allocated)\<newline>'',
      ''Committed_AS: 2 kB    (parent mem allocated)\<newline>'',
      ''Committed_AS: 1 kB    (parent mem initialized)\<newline>'',
      ''Committed_AS: 2 kB    (parent mem initialized)\<newline>'',
      ''Committed_AS: 1 kB    (parent mem set-readonly)\<newline>'',
      ''Committed_AS: 2 kB    (parent mem set-readonly)\<newline>'',
      ''Committed_AS: 1 kB    (parent forked children)\<newline>'',
      ''Committed_AS: 2 kB    (parent forked children)\<newline>'',
      ''Committed_AS: 1 kB    (parent reaped children)\<newline>'',
      ''Committed_AS: 2 kB    (parent reaped children)\<newline>'',
      ''Committed_AS: 1 kB    (parent mem unmapped)\<newline>'',
      ''Committed_AS: 2 kB    (parent mem unmapped)\<newline>'']
   \<and> status (main os_twice [''./oom_alloc'', ''--shared'']) = Some 0"
proof -
  have 1: "stdout_of (trace (main os_ok [''./oom_alloc'', ''--shared''])) =
     [''Test dnsmasq OOM: memory allocation and forking\<newline>'',
      ''(allocate 64 MB shared anonymous, fork 16 processes)\<newline>'',
      ''Committed_AS:      41236 kB    (initial state)\<newline>'',
      ''Committed_AS:      41236 kB    (parent mem allocated)\<newline>'',
      ''Committed_AS:      41236 kB    (parent mem initialized)\<newline>'',
      ''Committed_AS:      41236 kB    (parent mem set-readonly)\<newline>'',
      ''Committed_AS:      41236 kB    (parent forked children)\<newline>'',
      ''Committed_AS:      41236 kB    (parent reaped children)\<newline>'',
      ''Committed_AS:      41236 kB    (parent mem unmapped)\<newline>'']"
    by (simp add: run_ok_shared stdout_of_append sample_checkpoint_def stdout_of_Store
          stdout_of_Fork stdout_of_Wait del: upt_Suc)
  have 2: "status (main os_ok [''./oom_alloc'', ''--shared'']) = Some 0"
    by (rule status_by_last) (simp add: run_ok_shared)
  have 3: "stdout_of (trace (main os_mmap_fails [''./oom_alloc'', ''--private''])) =
     [''Test dnsmasq OOM: memory allocation and forking\<newline>'',
      ''(allocate 64 MB private anonymous, fork 16 processes)\<newline>'',
      ''Committed_AS:      41236 kB    (initial state)\<newline>'']"
    by (simp add: run_mmap_fails)
  have 4: "status (main os_mmap_fails [''./oom_alloc'', ''--private'']) = Some 1"
    by (rule status_by_last) (simp add: run_mmap_fails)
  have o: "meminfo os_twice k = Some two_metric_lines" for k
    by (simp add: os_twice_def)
  have 5: "stdout_of (trace (main os_twice [''./oom_alloc'', ''--shared''])) =
     [''Test dnsmasq OOM: memory allocation and forking\<newline>'',
      ''(allocate 64 MB shared anonymous, fork 16 processes)\<newline>'',
      ''Committed_AS: 1 kB    (initial state)\<newline>'',
      ''Committed_AS: 2 kB    (initial state)\<newline>'',
      ''Committed_AS: 1 kB    (parent mem allocated)\<newline>'',
      ''Committed_AS: 2 kB    (parent mem allocated)\<newline>'',
      ''Committed_AS: 1 kB    (parent mem initialized)\<newline>'',
      ''Committed_AS: 2 kB    (parent mem initialized)\<newline>'',
      ''Committed_AS: 1 kB    (parent mem set-readonly)\<newline>'',
      ''Committed_AS: 2 kB    (parent mem set-readonly)\<newline>'',
      ''Committed_AS: 1 kB    (parent forked children)\<newline>'',
      ''Committed_AS: 2 kB    (parent forked children)\<newline>'',
      ''Committed_AS: 1 kB    (parent reaped children)\<newline>'',
      ''Committed_AS: 2 kB    (parent reaped children)\<newline>'',
      ''Committed_AS: 1 kB    (parent mem unmapped)\<newline>'',
      ''Committed_AS: 2 kB    (parent mem unmapped)\<newline>'']"
    by (simp add: main_shared stdout_all_ok [OF all_ok_twice] o stdout_of_pmc_twice
          banner1_def banner2_shared)
  have 6: "status (main os_twice [''./oom_alloc'', ''--shared'']) = Some 0"
    using all_ok_trace [OF all_ok_twice, of 1] by (simp add: main_shared EXIT_SUCCESS_def)
  from 1 2 3 4 5 6 show ?thesis by (simp add: memstr_def)
qed

end
